theory Spec2Isabelle
  imports Complex_Main "HOL-Library.AList" "HOL-Library.Sublist" "HOL-Library.Word"
begin

section \<open>The nexus tree of \<^verbatim>\<open>_nexus_helpers.py\<close>\<close>

text \<open>
  The source works on JSON-like dictionaries. A node of the nexus tree is a dictionary
  whose keys, as far as the code reads or writes them, are \<^verbatim>\<open>name\<close>, \<^verbatim>\<open>module\<close>,
  \<^verbatim>\<open>config\<close>, \<^verbatim>\<open>attributes\<close> and \<^verbatim>\<open>children\<close>. Every key is optional in the
  source (\<^verbatim>\<open>n.get(...)\<close>, \<^verbatim>\<open>"children" in structure\<close>), so every field is an
  \<open>option\<close>: \<open>None\<close> is the absent key. Exceptions are values of \<open>error\<close>; a
  function that mutates its argument returns the argument as it leaves it, also when it
  raises.
\<close>

datatype error = KeyError | ValueError | NotImplementedError

type_synonym NexusPath = "string option list"

subsection \<open>Arrays\<close>

text \<open>
  The arrays are numpy arrays, and two element types occur. The arrays of a message
  hold 64-bit integers, and \<^verbatim>\<open>_initialize_ev44\<close> creates every dataset with
  \<^verbatim>\<open>np.asarray([])\<close>, an empty array of float64. A float64 array holds real numbers
  (no array of the module holds an infinity or a NaN).

  Modelled from the spec: the element type int64 of the arrays of a message, which the
  decoder outside this module decides.
\<close>

type_synonym int64 = "64 word"

datatype ndarray = Float64 "real list" | Int64 "int64 list"

text \<open>\<^verbatim>\<open>len(array)\<close>.\<close>

fun array_length :: "ndarray \<Rightarrow> nat" where
  "array_length (Float64 xs) = length xs"
| "array_length (Int64 xs) = length xs"

text \<open>
  numpy converts a 64-bit integer to float64 by rounding to the nearest float64, a tie
  going to the one with the even significand. The significand has 53 bits: the float64
  numbers around an integer \<open>n\<close> with \<open>2 ^ (52 + e) \<le> \<bar>n\<bar> < 2 ^ (53 + e)\<close> are the
  multiples of \<open>2 ^ e\<close>. Every integer of magnitude up to \<open>2 ^ 53\<close> is a float64.
\<close>

definition float64_exponent :: "int \<Rightarrow> nat" where
  "float64_exponent n = length (filter (\<lambda>k. 2 ^ (53 + k) \<le> \<bar>n\<bar>) [0..<11])"

definition float64_of_int :: "int \<Rightarrow> int" where
  "float64_of_int n =
     (let u = 2 ^ float64_exponent n; q = n div u; r = n mod u
      in (if 2 * r > u \<or> (2 * r = u \<and> odd q) then q + 1 else q) * u)"

definition float64_of_int64 :: "int64 \<Rightarrow> real" where
  "float64_of_int64 w = real_of_int (float64_of_int (sint w))"

text \<open>
  \<^verbatim>\<open>np.concatenate((original, new))\<close> with an array \<open>new\<close> of a message: the result has
  the common element type, float64 when \<open>original\<close> is a float64 array.
\<close>

fun concatenate :: "ndarray \<Rightarrow> int64 list \<Rightarrow> ndarray" where
  "concatenate (Float64 xs) new = Float64 (xs @ map float64_of_int64 new)"
| "concatenate (Int64 xs) new = Int64 (xs @ new)"

text \<open>What an empty float64 array holds after an array of a message was appended to it.\<close>

definition as_float64 :: "int64 list \<Rightarrow> ndarray" where
  "as_float64 xs = Float64 (map float64_of_int64 xs)"

record attribute =
  attr_name :: string
  attr_dtype :: string
  attr_values :: string

record dataset_config =
  cfg_name :: "string option"
  cfg_source :: "string option"
  cfg_dtype :: "string option"
  cfg_values :: "ndarray option"

record node_items =
  name :: "string option"
  module :: "string option"
  config :: "dataset_config option"
  attributes :: "attribute list option"

datatype node = Node (items: node_items) (children: "node list option")

text \<open>The deserialized ev44 message (\<^verbatim>\<open>data_piece\<close>); \<^verbatim>\<open>pixel_id\<close> is \<open>None\<close> when the
  key is absent or holds \<^verbatim>\<open>None\<close>.\<close>

record message =
  source_name :: string
  reference_time :: "int64 list"
  time_of_flight :: "int64 list"
  reference_time_index :: "int64 list"
  pixel_id :: "int64 list option"

subsection \<open>Path index\<close>

text \<open>\<^verbatim>\<open>_node_name\<close>: \<^verbatim>\<open>n.get("name", n.get("config", {}).get("name"))\<close>.\<close>

definition items_name :: "node_items \<Rightarrow> string option" where
  "items_name d =
     (case name d of
        Some s \<Rightarrow> Some s
      | None \<Rightarrow> (case config d of None \<Rightarrow> None | Some c \<Rightarrow> cfg_name c))"

definition node_name :: "node \<Rightarrow> string option" where
  "node_name n = items_name (items n)"

text \<open>\<^verbatim>\<open>structure.get("children", [])\<close>.\<close>

definition get_children :: "node \<Rightarrow> node list" where
  "get_children n = (case children n of None \<Rightarrow> [] | Some cs \<Rightarrow> cs)"

text \<open>\<^verbatim>\<open>iter_nexus_structure\<close>: the generator, as the list of pairs it yields, in order;
  \<open>root_path\<close> is the parameter \<^verbatim>\<open>root\<close>.\<close>

function iter_nexus_structure :: "node \<Rightarrow> NexusPath option \<Rightarrow> (NexusPath \<times> node) list" where
  "iter_nexus_structure structure root_path =
     (let path = (case root_path of Some r \<Rightarrow> r @ [node_name structure] | None \<Rightarrow> [])
      in (path, structure) #
         concat (map (\<lambda>child. iter_nexus_structure child (Some path)) (get_children structure)))"
  by pat_completeness auto
termination
proof (relation "measure (\<lambda>(s, r). size s)")
  show "wf (measure (\<lambda>(s, r). size s))" by simp
next
  fix s :: node and r :: "NexusPath option" and x child
  assume "child \<in> set (get_children s)"
  then have "size child < size s"
  proof (cases s)
    case (Node f ch)
    with \<open>child \<in> set (get_children s)\<close> obtain cs where "ch = Some cs" "child \<in> set cs"
      by (auto simp: get_children_def split: option.splits)
    moreover from this have "size child \<le> size_list size cs"
      by (auto intro: size_list_estimation')
    ultimately show ?thesis using Node by simp
  qed
  then show "((child, Some x), s, r) \<in> measure (\<lambda>(s, r). size s)" by simp
qed

declare iter_nexus_structure.simps [simp del]

text \<open>The loop \<^verbatim>\<open>for child in structure["children"]: if head == _node_name(child): return ...\<close>
  returns at the first child of that name.\<close>

fun first_named :: "string option \<Rightarrow> node list \<Rightarrow> node option" where
  "first_named h [] = None"
| "first_named h (c # cs) = (if h = node_name c then Some c else first_named h cs)"

text \<open>\<^verbatim>\<open>find_nexus_structure\<close>: \<^verbatim>\<open>structure["children"]\<close> raises KeyError when the key is
  absent, and the function raises KeyError itself when no child has the name.\<close>

fun find_nexus_structure :: "node \<Rightarrow> NexusPath \<Rightarrow> error + node" where
  "find_nexus_structure structure [] = Inr structure"
| "find_nexus_structure structure (h # t) =
     (case children structure of
        None \<Rightarrow> Inl KeyError
      | Some cs \<Rightarrow>
          (case first_named h cs of
             None \<Rightarrow> Inl KeyError
           | Some child \<Rightarrow> find_nexus_structure child t))"

text \<open>\<^verbatim>\<open>find_parent\<close>: \<^verbatim>\<open>path[:-1]\<close> of the empty tuple is the empty tuple.\<close>

definition find_parent :: "node \<Rightarrow> NexusPath \<Rightarrow> error + node" where
  "find_parent structure path = find_nexus_structure structure (butlast path)"

text \<open>No two children of one node share a name, at every level of the tree.\<close>

function unique_sibling_names :: "node \<Rightarrow> bool" where
  "unique_sibling_names n =
     (distinct (map node_name (get_children n)) \<and>
      list_all unique_sibling_names (get_children n))"
  by pat_completeness auto
termination
proof (relation "measure size")
  show "wf (measure size)" by simp
next
  fix n :: node and c
  assume "c \<in> set (get_children n)"
  then have "size c < size n"
  proof (cases n)
    case (Node f ch)
    with \<open>c \<in> set (get_children n)\<close> obtain cs where "ch = Some cs" "c \<in> set cs"
      by (auto simp: get_children_def split: option.splits)
    moreover from this have "size c \<le> size_list size cs"
      by (auto intro: size_list_estimation')
    ultimately show ?thesis using Node by simp
  qed
  then show "(c, n) \<in> measure size" by simp
qed

declare unique_sibling_names.simps [simp del]

subsection \<open>Datasets\<close>

text \<open>\<^verbatim>\<open>create_dataset\<close>: the attribute list is empty unless a unit is given.\<close>

definition create_dataset :: "string \<Rightarrow> string \<Rightarrow> ndarray \<Rightarrow> string option \<Rightarrow> node" where
  "create_dataset nm dt initial_values unit_opt =
     Node \<lparr>name = None, module = Some ''dataset'',
           config = Some \<lparr>cfg_name = Some nm, cfg_source = None, cfg_dtype = Some dt,
                          cfg_values = Some initial_values\<rparr>,
           attributes = Some (case unit_opt of
                                None \<Rightarrow> []
                              | Some u \<Rightarrow> [\<lparr>attr_name = ''units'', attr_dtype = ''string'',
                                           attr_values = u\<rparr>])\<rparr>
          None"

text \<open>\<^verbatim>\<open>_get_array_values\<close> and \<^verbatim>\<open>_set_values\<close>: \<^verbatim>\<open>dataset["config"]["values"]\<close>, read and
  written; a missing key raises KeyError.\<close>

definition get_array_values :: "node \<Rightarrow> error + ndarray" where
  "get_array_values dataset =
     (case config (items dataset) of
        None \<Rightarrow> Inl KeyError
      | Some c \<Rightarrow> (case cfg_values c of None \<Rightarrow> Inl KeyError | Some v \<Rightarrow> Inr v))"

definition set_values :: "node \<Rightarrow> ndarray \<Rightarrow> error + node" where
  "set_values dataset vs =
     (case config (items dataset) of
        None \<Rightarrow> Inl KeyError
      | Some c \<Rightarrow>
          Inr (Node ((items dataset)\<lparr>config := Some (c\<lparr>cfg_values := Some vs\<rparr>)\<rparr>)
                    (children dataset)))"

text \<open>
  \<^verbatim>\<open>find_nexus_structure(group, (nm,))\<close> returns the child dictionary itself, and
  \<^verbatim>\<open>_set_values\<close> writes into it: afterwards the group holds the changed dataset at the
  place of its first child of that name.
\<close>

fun replace_first_named :: "string option \<Rightarrow> node \<Rightarrow> node list \<Rightarrow> node list" where
  "replace_first_named h d [] = []"
| "replace_first_named h d (c # cs) =
     (if h = node_name c then d # cs else c # replace_first_named h d cs)"

definition put_child :: "node \<Rightarrow> string option \<Rightarrow> node \<Rightarrow> node" where
  "put_child grp h d =
     Node (items grp) (map_option (replace_first_named h d) (children grp))"

subsection \<open>Field initializer and field merger\<close>

text \<open>
  \<^verbatim>\<open>_initialize_ev44\<close> mutates the group, and \<^verbatim>\<open>group["name"]\<close> raises KeyError when
  the group has no name, after the first three datasets were appended: the result is
  the group as left behind, with the error if one was raised.
\<close>

definition initialize_ev44 :: "node \<Rightarrow> (error \<times> node) + node" where
  "initialize_ev44 grp =
     (let children3 = get_children grp @
            [create_dataset ''event_time_zero'' ''int'' (Float64 []) (Some ''ns''),
             create_dataset ''event_time_offset'' ''int'' (Float64 []) (Some ''ns''),
             create_dataset ''event_index'' ''int'' (Float64 []) None]
      in case name (items grp) of
           None \<Rightarrow> Inl (KeyError, Node (items grp) (Some children3))
         | Some nm \<Rightarrow>
             if sublist ''monitor'' nm then Inr (Node (items grp) (Some children3))
             else Inr (Node (items grp)
                         (Some (children3 @
                                  [create_dataset ''event_id'' ''int'' (Float64 []) None]))))"

text \<open>
  One block of \<^verbatim>\<open>_merge_ev44\<close>: look the dataset up, read its array, write the
  concatenation back. The result is the group after the write together with the array
  as it was read; a KeyError leaves the group as it was before the block.
\<close>

definition append_to_dataset ::
  "node \<Rightarrow> string \<Rightarrow> int64 list \<Rightarrow> (error \<times> node) + (node \<times> ndarray)" where
  "append_to_dataset grp nm new =
     (case find_nexus_structure grp [Some nm] of
        Inl e \<Rightarrow> Inl (e, grp)
      | Inr dataset \<Rightarrow>
          (case get_array_values dataset of
             Inl e \<Rightarrow> Inl (e, grp)
           | Inr original \<Rightarrow>
               (case set_values dataset (concatenate original new) of
                  Inl e \<Rightarrow> Inl (e, grp)
                | Inr dataset' \<Rightarrow> Inr (put_child grp (Some nm) dataset', original))))"

text \<open>
  \<^verbatim>\<open>_merge_ev44\<close>: the four blocks in the order of the source. An error keeps the
  writes of the blocks before it. The sum \<^verbatim>\<open>data_piece["reference_time_index"] + event_index_offset\<close>
  is taken in the element type of the array, 64-bit integers, where it wraps around.
\<close>

definition merge_ev44 :: "node \<Rightarrow> message \<Rightarrow> (error \<times> node) + node" where
  "merge_ev44 grp data_piece =
     (case append_to_dataset grp ''event_time_zero'' (reference_time data_piece) of
        Inl e \<Rightarrow> Inl e
      | Inr (grp1, original_event_time_zero) \<Rightarrow>
     (case append_to_dataset grp1 ''event_time_offset'' (time_of_flight data_piece) of
        Inl e \<Rightarrow> Inl e
      | Inr (grp2, original_event_time_offset) \<Rightarrow>
     (let event_index_offset = array_length original_event_time_offset;
          new_event_index =
            map (\<lambda>i. i + of_nat event_index_offset) (reference_time_index data_piece)
      in case append_to_dataset grp2 ''event_index'' new_event_index of
        Inl e \<Rightarrow> Inl e
      | Inr (grp3, original_event_index) \<Rightarrow>
     (case pixel_id data_piece of
        None \<Rightarrow> Inr grp3
      | Some new_event_id \<Rightarrow>
          (case append_to_dataset grp3 ''event_id'' new_event_id of
             Inl e \<Rightarrow> Inl e
           | Inr (grp4, original_event_id) \<Rightarrow> Inr grp4)))))"

subsection \<open>Placeholder matcher\<close>

text \<open>\<^verbatim>\<open>node.get("config", {}).get("source")\<close>.\<close>

definition config_source :: "node \<Rightarrow> string option" where
  "config_source n = (case config (items n) of None \<Rightarrow> None | Some c \<Rightarrow> cfg_source c)"

definition find_ev44_matching_paths :: "node \<Rightarrow> message \<Rightarrow> NexusPath list" where
  "find_ev44_matching_paths structure data_piece =
     map fst
       (filter
          (\<lambda>(path, n). module (items n) = Some ''ev44'' \<and>
                       config_source n = Some (source_name data_piece))
          (iter_nexus_structure structure None))"

subsection \<open>Store merge bridge\<close>

text \<open>
  The store is a Python dictionary from paths to groups: an association list, read with
  \<open>map_of\<close> and written with \<open>AList.update\<close>. The store is mutated in place, so an
  error comes with the store as the call left it.
\<close>

type_synonym NexusGroupDictStore = "(NexusPath \<times> node) list"

text \<open>The body of the \<^verbatim>\<open>except KeyError\<close> clause.\<close>

definition except_KeyError ::
  "(node \<Rightarrow> (error \<times> node) + node) \<Rightarrow> (node \<Rightarrow> message \<Rightarrow> (error \<times> node) + node) \<Rightarrow>
   NexusGroupDictStore \<Rightarrow> node \<Rightarrow> message \<Rightarrow> NexusPath \<Rightarrow>
   (error \<times> NexusGroupDictStore) + NexusGroupDictStore" where
  "except_KeyError data_field_initialize_func merge_func store structure data_piece path =
     (case find_parent structure path of
        Inl e \<Rightarrow> Inl (e, store)
      | Inr parent \<Rightarrow>
          (case children parent of
             None \<Rightarrow> Inl (KeyError, store)
           | Some cs \<Rightarrow>
               if length cs > 1 then Inl (ValueError, store)
               else
                 (case data_field_initialize_func (Node (items parent) (Some [])) of
                    Inl (e, g) \<Rightarrow> Inl (e, AList.update path g store)
                  | Inr g \<Rightarrow>
                      (case merge_func g data_piece of
                         Inl (e, g') \<Rightarrow> Inl (e, AList.update path g' store)
                       | Inr g' \<Rightarrow> Inr (AList.update path g' store)))))"

text \<open>
  One turn of the loop of \<^verbatim>\<open>_merge_message_into_data_module_store\<close>. The \<^verbatim>\<open>try\<close>
  block holds both the lookup \<^verbatim>\<open>data_module_store[path]\<close> and the call of
  \<^verbatim>\<open>merge_func\<close>, so the clause also catches a KeyError raised inside \<^verbatim>\<open>merge_func\<close>,
  after \<^verbatim>\<open>merge_func\<close> has written into the stored group.
\<close>

definition merge_path ::
  "(node \<Rightarrow> (error \<times> node) + node) \<Rightarrow> (node \<Rightarrow> message \<Rightarrow> (error \<times> node) + node) \<Rightarrow>
   NexusGroupDictStore \<Rightarrow> node \<Rightarrow> message \<Rightarrow> NexusPath \<Rightarrow>
   (error \<times> NexusGroupDictStore) + NexusGroupDictStore" where
  "merge_path data_field_initialize_func merge_func store structure data_piece path =
     (case map_of store path of
        None \<Rightarrow>
          except_KeyError data_field_initialize_func merge_func store structure data_piece path
      | Some g \<Rightarrow>
          (case merge_func g data_piece of
             Inr g' \<Rightarrow> Inr (AList.update path g' store)
           | Inl (e, g') \<Rightarrow>
               if e = KeyError
               then except_KeyError data_field_initialize_func merge_func
                      (AList.update path g' store) structure data_piece path
               else Inl (e, AList.update path g' store)))"

fun merge_paths ::
  "(node \<Rightarrow> (error \<times> node) + node) \<Rightarrow> (node \<Rightarrow> message \<Rightarrow> (error \<times> node) + node) \<Rightarrow>
   NexusGroupDictStore \<Rightarrow> node \<Rightarrow> message \<Rightarrow> NexusPath list \<Rightarrow>
   (error \<times> NexusGroupDictStore) + NexusGroupDictStore" where
  "merge_paths data_field_initialize_func merge_func store structure data_piece [] = Inr store"
| "merge_paths data_field_initialize_func merge_func store structure data_piece (path # paths) =
     (case merge_path data_field_initialize_func merge_func store structure data_piece path of
        Inl e \<Rightarrow> Inl e
      | Inr store' \<Rightarrow>
          merge_paths data_field_initialize_func merge_func store' structure data_piece paths)"

text \<open>\<^verbatim>\<open>_merge_message_into_data_module_store\<close>.\<close>

definition merge_message_into_data_module_store_bridge ::
  "NexusGroupDictStore \<Rightarrow> node \<Rightarrow> message \<Rightarrow> (node \<Rightarrow> message \<Rightarrow> NexusPath list) \<Rightarrow>
   (node \<Rightarrow> (error \<times> node) + node) \<Rightarrow> (node \<Rightarrow> message \<Rightarrow> (error \<times> node) + node) \<Rightarrow>
   (error \<times> NexusGroupDictStore) + NexusGroupDictStore" where
  "merge_message_into_data_module_store_bridge data_module_store structure data_piece
     path_matching_func data_field_initialize_func merge_func =
       merge_paths data_field_initialize_func merge_func data_module_store structure data_piece
         (path_matching_func structure data_piece)"

definition merge_message_into_data_module_store ::
  "NexusGroupDictStore \<Rightarrow> node \<Rightarrow> string \<Rightarrow> message \<Rightarrow>
   (error \<times> NexusGroupDictStore) + NexusGroupDictStore" where
  "merge_message_into_data_module_store data_module_store structure kind data_piece =
     (if kind = ''ev44''
      then merge_message_into_data_module_store_bridge data_module_store structure data_piece
             find_ev44_matching_paths initialize_ev44 merge_ev44
      else Inl (NotImplementedError, data_module_store))"

text \<open>What a call leaves in the store, whether it raised or not.\<close>

definition store_after ::
  "(error \<times> NexusGroupDictStore) + NexusGroupDictStore \<Rightarrow> NexusGroupDictStore" where
  "store_after r = (case r of Inl (e, s) \<Rightarrow> s | Inr s \<Rightarrow> s)"

definition raised :: "(error \<times> NexusGroupDictStore) + NexusGroupDictStore \<Rightarrow> error option" where
  "raised r = (case r of Inl (e, s) \<Rightarrow> Some e | Inr s \<Rightarrow> None)"


text \<open>The array a group holds under a dataset name, and its length.\<close>

definition dataset_values :: "node \<Rightarrow> string \<Rightarrow> error + ndarray" where
  "dataset_values grp nm =
     (case find_nexus_structure grp [Some nm] of
        Inl e \<Rightarrow> Inl e
      | Inr dataset \<Rightarrow> get_array_values dataset)"

definition dataset_length :: "node \<Rightarrow> string \<Rightarrow> error + nat" where
  "dataset_length grp nm =
     (case dataset_values grp nm of Inl e \<Rightarrow> Inl e | Inr a \<Rightarrow> Inr (array_length a))"

subsection \<open>Tree combiner\<close>

text \<open>
  \<^verbatim>\<open>combine_data_module_store_and_structure\<close> returns some dictionaries of its
  arguments as they are and builds others anew. To tell the two apart, a dictionary of
  the tree carries its identity \<open>ident\<close> (its address), and the function takes the
  next free address \<open>a\<close> and returns the next free address with its result: the
  dictionary built by \<^verbatim>\<open>{**structure}\<close> gets the address \<open>a\<close>. Two dictionaries of one
  heap are the same object when they are equal here, identity included.
\<close>

datatype obj = Obj (ident: nat) (oitems: node_items) (ochildren: "obj list option")

type_synonym obj_store = "(NexusPath \<times> obj) list"

definition obj_name :: "obj \<Rightarrow> string option" where
  "obj_name n = items_name (oitems n)"

text \<open>
  The dictionary comprehension
  \<^verbatim>\<open>{tuple(tail): group for (head, *tail), group in store.items() if head == name}\<close>:
  every key is unpacked before the filter is applied, and the empty tuple does not
  unpack (ValueError).
\<close>

definition strip_head :: "string option \<Rightarrow> obj_store \<Rightarrow> error + obj_store" where
  "strip_head h store =
     (if [] \<in> set (map fst store) then Inl ValueError
      else Inr (map (\<lambda>(k, g). (tl k, g)) (filter (\<lambda>(k, g). hd k = h) store)))"

fun combine_data_module_store_and_structure ::
    "obj_store \<Rightarrow> obj \<Rightarrow> nat \<Rightarrow> error + obj \<times> nat"
  and combine_children :: "obj_store \<Rightarrow> obj list \<Rightarrow> nat \<Rightarrow> error + obj list \<times> nat" where
  "combine_data_module_store_and_structure data_module_store (Obj i d ch) a =
     (if length data_module_store = 0 then Inr (Obj i d ch, a)
      else case map_of data_module_store [None] of
        Some g \<Rightarrow> Inr (g, a)
      | None \<Rightarrow>
          (case ch of
             None \<Rightarrow> Inr (Obj a d None, Suc a)
           | Some cs \<Rightarrow>
               (case combine_children data_module_store cs (Suc a) of
                  Inl e \<Rightarrow> Inl e
                | Inr (cs', a') \<Rightarrow> Inr (Obj a d (Some cs'), a'))))"
| "combine_children data_module_store [] a = Inr ([], a)"
| "combine_children data_module_store (child # rest) a =
     (case strip_head (obj_name child) data_module_store of
        Inl e \<Rightarrow> Inl e
      | Inr sub \<Rightarrow>
          (case combine_data_module_store_and_structure sub child a of
             Inl e \<Rightarrow> Inl e
           | Inr (c', a1) \<Rightarrow>
               (case combine_children data_module_store rest a1 of
                  Inl e \<Rightarrow> Inl e
                | Inr (cs', a2) \<Rightarrow> Inr (c' # cs', a2))))"

text \<open>
  To speak about a subtree and the corresponding subtree of the result: the subtree
  reached by taking the children at the given positions, the names met on the way, and
  the identities of all dictionaries of a tree.
\<close>

fun subtree_at :: "obj \<Rightarrow> nat list \<Rightarrow> obj option" where
  "subtree_at t [] = Some t"
| "subtree_at t (j # js) =
     (case ochildren t of
        None \<Rightarrow> None
      | Some cs \<Rightarrow> if j < length cs then subtree_at (cs ! j) js else None)"

fun names_along :: "obj \<Rightarrow> nat list \<Rightarrow> NexusPath" where
  "names_along t [] = []"
| "names_along t (j # js) =
     (case ochildren t of
        None \<Rightarrow> []
      | Some cs \<Rightarrow> if j < length cs then obj_name (cs ! j) # names_along (cs ! j) js else [])"

fun idents :: "obj \<Rightarrow> nat list" where
  "idents (Obj i d ch) = i # (case ch of None \<Rightarrow> [] | Some cs \<Rightarrow> concat (map idents cs))"

text \<open>
  \<open>leaves_branch q p\<close>: following the names \<open>q\<close> from the root, one leaves the path
  \<open>p\<close> at a node above the parent group of \<open>p\<close>, by taking a child of another name than
  \<open>p\<close> takes there.
\<close>

fun leaves_branch :: "NexusPath \<Rightarrow> NexusPath \<Rightarrow> bool" where
  "leaves_branch (n # q) (b # c # p) = (n \<noteq> b \<or> leaves_branch q (c # p))"
| "leaves_branch q p = False"

section \<open>Example inputs\<close>

definition ev44_placeholder :: "string \<Rightarrow> node" where
  "ev44_placeholder src =
     Node \<lparr>name = None, module = Some ''ev44'',
           config = Some \<lparr>cfg_name = None, cfg_source = Some src, cfg_dtype = None,
                          cfg_values = None\<rparr>,
           attributes = None\<rparr> None"

definition nx_group :: "string \<Rightarrow> node list \<Rightarrow> node" where
  "nx_group nm cs =
     Node \<lparr>name = Some nm, module = None, config = None, attributes = None\<rparr> (Some cs)"

definition example_template :: node where
  "example_template =
     nx_group ''entry'' [nx_group ''detector_0'' [ev44_placeholder ''bankA''],
                        nx_group ''monitor_0'' [ev44_placeholder ''mon'']]"

definition materialized_detector :: node where
  "materialized_detector =
     Node \<lparr>name = Some ''detector_0'', module = None, config = None, attributes = None\<rparr>
       (Some [create_dataset ''event_time_zero'' ''int'' (Float64 [100]) (Some ''ns''),
              create_dataset ''event_time_offset'' ''int'' (Float64 [5, 6]) (Some ''ns''),
              create_dataset ''event_index'' ''int'' (Float64 [0]) None,
              create_dataset ''event_id'' ''int'' (Float64 [1, 2]) None])"

definition message_without_pixel_id :: message where
  "message_without_pixel_id =
     \<lparr>source_name = ''bankA'', reference_time = [200], time_of_flight = [7, 8, 9],
      reference_time_index = [0], pixel_id = None\<rparr>"

definition message_unknown_source :: message where
  "message_unknown_source =
     \<lparr>source_name = ''bankZ'', reference_time = [100], time_of_flight = [5, 6],
      reference_time_index = [0], pixel_id = Some [1, 2]\<rparr>"

definition message_bankA :: message where
  "message_bankA =
     \<lparr>source_name = ''bankA'', reference_time = [100], time_of_flight = [5, 6],
      reference_time_index = [0], pixel_id = Some [1, 2]\<rparr>"

definition two_placeholder_template :: node where
  "two_placeholder_template =
     nx_group ''entry''
       [nx_group ''detector_0'' [ev44_placeholder ''bankA'', ev44_placeholder ''bankB'']]"

definition materialized_group ::
  "string \<Rightarrow> real list \<Rightarrow> real list \<Rightarrow> real list \<Rightarrow> real list \<Rightarrow> node" where
  "materialized_group nm z off ix ev =
     Node \<lparr>name = Some nm, module = None, config = None, attributes = None\<rparr>
       (Some [create_dataset ''event_time_zero'' ''int'' (Float64 z) (Some ''ns''),
              create_dataset ''event_time_offset'' ''int'' (Float64 off) (Some ''ns''),
              create_dataset ''event_index'' ''int'' (Float64 ix) None,
              create_dataset ''event_id'' ''int'' (Float64 ev) None])"

definition message_bankA_2 :: message where
  "message_bankA_2 =
     \<lparr>source_name = ''bankA'', reference_time = [200], time_of_flight = [7],
      reference_time_index = [0], pixel_id = Some [3]\<rparr>"

definition duplicate_source_template :: node where
  "duplicate_source_template =
     nx_group ''entry'' [nx_group ''detector_0'' [ev44_placeholder ''bankA''],
                        nx_group ''detector_1'' [ev44_placeholder ''bankA'']]"

definition materialized_monitor ::
  "string \<Rightarrow> real list \<Rightarrow> real list \<Rightarrow> real list \<Rightarrow> node" where
  "materialized_monitor nm z off ix =
     Node \<lparr>name = Some nm, module = None, config = None, attributes = None\<rparr>
       (Some [create_dataset ''event_time_zero'' ''int'' (Float64 z) (Some ''ns''),
              create_dataset ''event_time_offset'' ''int'' (Float64 off) (Some ''ns''),
              create_dataset ''event_index'' ''int'' (Float64 ix) None])"

definition message_mon_1 :: message where
  "message_mon_1 =
     \<lparr>source_name = ''mon'', reference_time = [100, 101], time_of_flight = [5, 6],
      reference_time_index = [0, 1], pixel_id = None\<rparr>"

definition message_mon_2 :: message where
  "message_mon_2 =
     \<lparr>source_name = ''mon'', reference_time = [200], time_of_flight = [7],
      reference_time_index = [0], pixel_id = Some [1]\<rparr>"

text \<open>Two groups of one name, each with a placeholder of the same source: the two
  placeholders have the same path.\<close>

definition same_name_template :: node where
  "same_name_template =
     nx_group ''entry'' [nx_group ''detector_0'' [ev44_placeholder ''bankA''],
                        nx_group ''detector_0'' [ev44_placeholder ''bankA'']]"

text \<open>Two placeholders of one source, the first of them in a group with a second child.\<close>

definition crowded_first_template :: node where
  "crowded_first_template =
     nx_group ''entry''
       [nx_group ''detector_0'' [ev44_placeholder ''bankA'', ev44_placeholder ''bankB''],
        nx_group ''detector_1'' [ev44_placeholder ''bankA'']]"

text \<open>A template and an overlay group with the identities of their dictionaries.\<close>

definition obj_placeholder :: "nat \<Rightarrow> string \<Rightarrow> obj" where
  "obj_placeholder i src =
     Obj i \<lparr>name = None, module = Some ''ev44'',
             config = Some \<lparr>cfg_name = None, cfg_source = Some src, cfg_dtype = None,
                            cfg_values = None\<rparr>,
             attributes = None\<rparr> None"

definition obj_group :: "nat \<Rightarrow> string \<Rightarrow> obj list \<Rightarrow> obj" where
  "obj_group i nm cs =
     Obj i \<lparr>name = Some nm, module = None, config = None, attributes = None\<rparr> (Some cs)"

definition example_obj_template :: obj where
  "example_obj_template =
     obj_group 0 ''entry'' [obj_group 1 ''detector_0'' [obj_placeholder 2 ''bankA''],
                           obj_group 3 ''monitor_0'' [obj_placeholder 4 ''mon'']]"

definition example_overlay :: obj where
  "example_overlay = obj_group 10 ''detector_0'' []"

section \<open>Path index: traversal and lookup agree\<close>

lemma first_named_distinct:
  "distinct (map node_name cs) \<Longrightarrow> c \<in> set cs \<Longrightarrow> first_named (node_name c) cs = Some c"
proof (induction cs)
  case Nil
  then show ?case by simp
next
  case (Cons a cs)
  then show ?case by (cases "c = a") (auto simp: image_iff)
qed

lemma get_children_Some: "c \<in> set (get_children t) \<Longrightarrow> children t = Some (get_children t)"
  by (cases "children t") (simp_all add: get_children_def)

lemma iter_set:
  "set (iter_nexus_structure t rp) =
     insert (case rp of Some r \<Rightarrow> r @ [node_name t] | None \<Rightarrow> [], t)
       (\<Union>c \<in> set (get_children t).
          set (iter_nexus_structure c
                 (Some (case rp of Some r \<Rightarrow> r @ [node_name t] | None \<Rightarrow> []))))"
  by (subst iter_nexus_structure.simps) (simp add: Let_def)

lemma iter_find_below:
  "unique_sibling_names t \<Longrightarrow> (p, n) \<in> set (iter_nexus_structure t (Some r)) \<Longrightarrow>
     \<exists>q. p = r @ node_name t # q \<and> find_nexus_structure t q = Inr n"
proof (induction t "Some r" arbitrary: r rule: iter_nexus_structure.induct)
  case (1 t)
  from "1.prems"(2) consider "p = r @ [node_name t]" "n = t"
    | c where "c \<in> set (get_children t)"
        "(p, n) \<in> set (iter_nexus_structure c (Some (r @ [node_name t])))"
    by (subst (asm) iter_set) auto
  then show ?case
  proof cases
    case 1
    then show ?thesis by simp
  next
    case 2
    from "1.prems"(1) have d: "distinct (map node_name (get_children t))"
      and u: "unique_sibling_names c"
      using 2(1) by (subst (asm) unique_sibling_names.simps; simp add: list_all_iff)+
    from "1.hyps"[of "r @ [node_name t]" c] 2 u obtain q where
      q: "p = (r @ [node_name t]) @ node_name c # q" "find_nexus_structure c q = Inr n"
      by auto
    have "find_nexus_structure t (node_name c # q) = Inr n"
      using get_children_Some[OF 2(1)] first_named_distinct[OF d 2(1)] q(2) by simp
    with q(1) show ?thesis by simp
  qed
qed

lemmas example_defs =
  example_template_def nx_group_def ev44_placeholder_def get_children_def node_name_def
  items_name_def

text \<open>
  C10. In a tree in which no two siblings share a name, every pair \<open>(path, n)\<close> that
  \<open>iter_nexus_structure\<close> yields is found again: \<open>find_nexus_structure\<close> does not raise
  on \<open>path\<close> and returns \<open>n\<close>. The empty path returns the root of any tree.
\<close>

theorem iter_find_roundtrip:
  "find_nexus_structure tree [] = Inr tree \<and>
   (unique_sibling_names tree \<and> (path, n) \<in> set (iter_nexus_structure tree None) \<longrightarrow>
      find_nexus_structure tree path = Inr n)"
proof (intro conjI impI)
  show "find_nexus_structure tree [] = Inr tree" by simp
next
  assume h: "unique_sibling_names tree \<and> (path, n) \<in> set (iter_nexus_structure tree None)"
  then consider "path = []" "n = tree"
    | c where "c \<in> set (get_children tree)"
        "(path, n) \<in> set (iter_nexus_structure c (Some []))"
    by (subst (asm) iter_set) auto
  then show "find_nexus_structure tree path = Inr n"
  proof cases
    case 1
    then show ?thesis by simp
  next
    case 2
    from h have d: "distinct (map node_name (get_children tree))"
      and u: "unique_sibling_names c"
      using 2(1) by (subst (asm) unique_sibling_names.simps; simp add: list_all_iff)+
    from iter_find_below[OF u 2(2)] obtain q where
      q: "path = node_name c # q" "find_nexus_structure c q = Inr n" by auto
    show ?thesis
      using get_children_Some[OF 2(1)] first_named_distinct[OF d 2(1)] q by simp
  qed
qed

theorem iter_find_roundtrip_witness:
  "unique_sibling_names example_template \<and>
   ([Some ''detector_0'', None], ev44_placeholder ''bankA'')
      \<in> set (iter_nexus_structure example_template None) \<and>
   find_nexus_structure example_template [Some ''detector_0'', None]
     = Inr (ev44_placeholder ''bankA'') \<and>
   find_nexus_structure example_template [] = Inr example_template"
proof -
  have u: "unique_sibling_names example_template"
    by (simp add: unique_sibling_names.simps [of "Node a b" for a b] example_defs)
  have m: "([Some ''detector_0'', None], ev44_placeholder ''bankA'')
      \<in> set (iter_nexus_structure example_template None)"
    by (simp add: iter_nexus_structure.simps [of "Node a b" for a b] example_defs)
  from iter_find_roundtrip [of example_template "[Some ''detector_0'', None]"
      "ev44_placeholder ''bankA''"] u m
  show ?thesis by simp
qed

section \<open>Arrays: lengths and exact conversion\<close>

lemma array_length_concatenate [simp]:
  "array_length (concatenate a new) = array_length a + length new"
  by (cases a) simp_all

lemma array_length_as_float64 [simp]: "array_length (as_float64 xs) = length xs"
  by (simp add: as_float64_def)

lemma concatenate_as_float64 [simp]:
  "concatenate (as_float64 xs) new = as_float64 (xs @ new)"
  by (simp add: as_float64_def)

lemma as_float64_fold [simp]: "Float64 (map float64_of_int64 xs) = as_float64 xs"
  by (simp add: as_float64_def)

lemma concatenate_empty: "concatenate (Float64 []) new = as_float64 new"
  by simp

lemma float64_exponent_small: "\<bar>n\<bar> < 2 ^ 53 \<Longrightarrow> float64_exponent n = 0"
proof -
  assume a: "\<bar>n\<bar> < 2 ^ 53"
  have "\<not> (2::int) ^ (53 + k) \<le> \<bar>n\<bar>" for k
  proof -
    have "(2::int) ^ 53 \<le> 2 ^ (53 + k)" by (rule power_increasing) simp_all
    with a show ?thesis by linarith
  qed
  then show ?thesis by (simp add: float64_exponent_def)
qed

lemma float64_of_int_exact: "\<bar>n\<bar> < 2 ^ 53 \<Longrightarrow> float64_of_int n = n"
  by (simp add: float64_of_int_def float64_exponent_small)

lemma float64_of_int64_exact:
  "\<bar>sint w\<bar> < 2 ^ 53 \<Longrightarrow> float64_of_int64 w = real_of_int (sint w)"
  by (simp add: float64_of_int64_def float64_of_int_exact)

text \<open>Below \<open>2 ^ 53\<close> nothing is rounded, and a sum below \<open>2 ^ 53\<close> does not wrap.\<close>

lemma as_float64_exact:
  assumes "list_all (\<lambda>w. \<bar>sint w\<bar> < 2 ^ 53) xs"
  shows "as_float64 xs = Float64 (map (\<lambda>w. real_of_int (sint w)) xs)"
proof -
  have "map float64_of_int64 xs = map (\<lambda>w. real_of_int (sint w)) xs"
    using assms by (induction xs) (simp_all add: float64_of_int64_exact)
  then show ?thesis unfolding as_float64_def by (rule arg_cong)
qed

lemma sint_add_of_nat:
  fixes k :: int64
  assumes "\<bar>sint k + int n\<bar> < 2 ^ 53"
  shows "sint (k + of_nat n) = sint k + int n"
proof -
  have "k + of_nat n = word_of_int (sint k + int n)" by simp
  moreover have "signed_take_bit 63 (sint k + int n) = sint k + int n"
    using assms by (intro signed_take_bit_int_eq_self) simp_all
  ultimately show ?thesis by (simp only: sint_sbintrunc') simp
qed

lemma float64_of_shifted_exact:
  fixes k :: int64
  assumes "\<bar>sint k + int n\<bar> < 2 ^ 53"
  shows "float64_of_int64 (k + of_nat n) = real_of_int (sint k + int n)"
  using assms float64_of_int64_exact[of "k + of_nat n"] by (simp add: sint_add_of_nat)

lemma as_float64_shifted_exact:
  assumes "list_all (\<lambda>k. \<bar>sint k\<bar> < 2 ^ 53) xs"
    and "list_all (\<lambda>k. \<bar>sint k + int n\<bar> < 2 ^ 53) ys"
  shows "as_float64 (xs @ map (\<lambda>k. k + of_nat n) ys)
           = Float64 (map (\<lambda>k. real_of_int (sint k)) xs @
                      map (\<lambda>k. real_of_int (sint k + int n)) ys)"
proof -
  have "map float64_of_int64 xs = map (\<lambda>w. real_of_int (sint w)) xs"
    using assms(1) by (induction xs) (simp_all add: float64_of_int64_exact)
  moreover have "map float64_of_int64 (map (\<lambda>k. k + of_nat n) ys)
                   = map (\<lambda>k. real_of_int (sint k + int n)) ys"
    using assms(2) by (induction ys) (simp_all add: float64_of_shifted_exact)
  ultimately have "map float64_of_int64 (xs @ map (\<lambda>k. k + of_nat n) ys)
      = map (\<lambda>k. real_of_int (sint k)) xs @ map (\<lambda>k. real_of_int (sint k + int n)) ys"
    by simp
  then show ?thesis unfolding as_float64_def by (rule arg_cong)
qed

section \<open>Datasets of a group: reading and appending\<close>

lemma first_named_name: "first_named h cs = Some c \<Longrightarrow> node_name c = h"
  by (induction cs) (auto split: if_splits)

lemma first_named_replace_same:
  "first_named h cs = Some c \<Longrightarrow> node_name d = h \<Longrightarrow>
     first_named h (replace_first_named h d cs) = Some d"
  by (induction cs) (auto split: if_splits)

lemma first_named_replace_other:
  "h' \<noteq> h \<Longrightarrow> node_name d = h \<Longrightarrow>
     first_named h' (replace_first_named h d cs) = first_named h' cs"
  by (induction cs) auto

lemma set_values_name: "set_values ds vs = Inr ds' \<Longrightarrow> node_name ds' = node_name ds"
  by (auto simp: set_values_def node_name_def items_name_def split: option.splits)

lemma set_values_get: "set_values ds vs = Inr ds' \<Longrightarrow> get_array_values ds' = Inr vs"
  by (auto simp: set_values_def get_array_values_def split: option.splits)

lemma get_then_set: "get_array_values ds = Inr v \<Longrightarrow> \<exists>ds'. set_values ds vs = Inr ds'"
  by (auto simp: set_values_def get_array_values_def split: option.splits)

lemma dataset_values_KeyError: "dataset_values g nm = Inl e \<Longrightarrow> e = KeyError"
  by (auto simp: dataset_values_def get_array_values_def split: sum.splits option.splits)

lemma append_to_dataset_ok:
  assumes "dataset_values g nm = Inr orig"
  shows "\<exists>g'. append_to_dataset g nm new = Inr (g', orig) \<and> items g' = items g \<and>
           dataset_values g' nm = Inr (concatenate orig new) \<and>
           (\<forall>nm'. nm' \<noteq> nm \<longrightarrow> dataset_values g' nm' = dataset_values g nm')"
proof -
  from assms obtain cs ds where cs: "children g = Some cs"
    and ds: "first_named (Some nm) cs = Some ds" and v: "get_array_values ds = Inr orig"
    by (auto simp: dataset_values_def split: sum.splits option.splits)
  from get_then_set[OF v] obtain ds' where s: "set_values ds (concatenate orig new) = Inr ds'" by auto
  have n: "node_name ds' = Some nm"
    using set_values_name[OF s] first_named_name[OF ds] by simp
  let ?g' = "put_child g (Some nm) ds'"
  have a: "append_to_dataset g nm new = Inr (?g', orig)"
    using cs ds v s by (simp add: append_to_dataset_def)
  have b: "dataset_values ?g' nm = Inr (concatenate orig new)"
    using cs first_named_replace_same[OF ds n] set_values_get[OF s]
    by (simp add: dataset_values_def put_child_def)
  have c: "dataset_values ?g' nm' = dataset_values g nm'" if "nm' \<noteq> nm" for nm'
    using cs that first_named_replace_other[of "Some nm'" "Some nm" ds' cs] n
    by (simp add: dataset_values_def put_child_def)
  show ?thesis using a b c by (auto simp: put_child_def)
qed

lemma append_to_dataset_fail:
  assumes "dataset_values g nm = Inl e"
  shows "append_to_dataset g nm new = Inl (KeyError, g)"
  using assms
  by (auto simp: dataset_values_def append_to_dataset_def get_array_values_def
           split: sum.splits option.splits)


lemma append_to_dataset_Inr:
  assumes "append_to_dataset g nm new = Inr (g', orig)"
  shows "dataset_values g nm = Inr orig"
proof (cases "dataset_values g nm")
  case (Inl e)
  from append_to_dataset_fail[OF Inl] assms show ?thesis by simp
next
  case (Inr v)
  from append_to_dataset_ok[OF Inr, of new] assms show ?thesis using Inr by auto
qed

lemma append_to_dataset_Inl:
  assumes "append_to_dataset g nm new = Inl (e, g')"
  shows "e = KeyError \<and> g' = g \<and> dataset_values g nm = Inl KeyError"
proof (cases "dataset_values g nm")
  case (Inl e')
  from append_to_dataset_fail[OF Inl] assms dataset_values_KeyError[OF Inl] Inl
  show ?thesis by simp
next
  case (Inr v)
  from append_to_dataset_ok[OF Inr, of new] assms show ?thesis by auto
qed

text \<open>merge_ev44 on a group whose datasets can be read.\<close>

lemma merge_ev44_ok:
  assumes z: "dataset_values g ''event_time_zero'' = Inr z"
    and o: "dataset_values g ''event_time_offset'' = Inr off"
    and i: "dataset_values g ''event_index'' = Inr ix"
    and e: "pixel_id m \<noteq> None \<Longrightarrow> dataset_values g ''event_id'' = Inr ev"
  shows "\<exists>g'. merge_ev44 g m = Inr g' \<and> items g' = items g \<and>
           dataset_values g' ''event_time_zero'' = Inr (concatenate z (reference_time m)) \<and>
           dataset_values g' ''event_time_offset'' = Inr (concatenate off (time_of_flight m)) \<and>
           dataset_values g' ''event_index''
             = Inr (concatenate ix
                    (map (\<lambda>k. k + of_nat (array_length off)) (reference_time_index m))) \<and>
           dataset_values g' ''event_id''
             = (case pixel_id m of None \<Rightarrow> dataset_values g ''event_id''
                | Some pix \<Rightarrow> Inr (concatenate ev pix))"
proof -
  from append_to_dataset_ok[OF z, of "reference_time m"] obtain g1 where
    g1: "append_to_dataset g ''event_time_zero'' (reference_time m) = Inr (g1, z)"
      "items g1 = items g"
      "dataset_values g1 ''event_time_zero'' = Inr (concatenate z (reference_time m))"
      "\<And>nm'. nm' \<noteq> ''event_time_zero'' \<Longrightarrow> dataset_values g1 nm' = dataset_values g nm'"
    by blast
  have o1: "dataset_values g1 ''event_time_offset'' = Inr off" using g1(4) o by simp
  from append_to_dataset_ok[OF o1, of "time_of_flight m"] obtain g2 where
    g2: "append_to_dataset g1 ''event_time_offset'' (time_of_flight m) = Inr (g2, off)"
      "items g2 = items g1"
      "dataset_values g2 ''event_time_offset'' = Inr (concatenate off (time_of_flight m))"
      "\<And>nm'. nm' \<noteq> ''event_time_offset'' \<Longrightarrow> dataset_values g2 nm' = dataset_values g1 nm'"
    by blast
  let ?new = "map (\<lambda>k. k + of_nat (array_length off)) (reference_time_index m)"
  have i2: "dataset_values g2 ''event_index'' = Inr ix" using g1(4) g2(4) i by simp
  from append_to_dataset_ok[OF i2, of ?new] obtain g3 where
    g3: "append_to_dataset g2 ''event_index'' ?new = Inr (g3, ix)"
      "items g3 = items g2"
      "dataset_values g3 ''event_index'' = Inr (concatenate ix ?new)"
      "\<And>nm'. nm' \<noteq> ''event_index'' \<Longrightarrow> dataset_values g3 nm' = dataset_values g2 nm'"
    by blast
  have z3: "dataset_values g3 ''event_time_zero'' = Inr (concatenate z (reference_time m))"
    using g1(3) g2(4) g3(4) by simp
  have o3: "dataset_values g3 ''event_time_offset'' = Inr (concatenate off (time_of_flight m))"
    using g2(3) g3(4) by simp
  have e3: "dataset_values g3 ''event_id'' = dataset_values g ''event_id''"
    using g1(4) g2(4) g3(4) by simp
  show ?thesis
  proof (cases "pixel_id m")
    case None
    have "merge_ev44 g m = Inr g3"
      using g1(1) g2(1) g3(1) None by (simp add: merge_ev44_def)
    then show ?thesis using g1(2) g2(2) g3(2,3) z3 o3 e3 None by simp
  next
    case (Some pix)
    with e e3 have e3': "dataset_values g3 ''event_id'' = Inr ev" by simp
    from append_to_dataset_ok[OF e3', of pix] obtain g4 where
      g4: "append_to_dataset g3 ''event_id'' pix = Inr (g4, ev)"
        "items g4 = items g3"
        "dataset_values g4 ''event_id'' = Inr (concatenate ev pix)"
        "\<And>nm'. nm' \<noteq> ''event_id'' \<Longrightarrow> dataset_values g4 nm' = dataset_values g3 nm'"
      by blast
    have "merge_ev44 g m = Inr g4"
      using g1(1) g2(1) g3(1) g4(1) Some by (simp add: merge_ev44_def)
    moreover have "dataset_values g4 ''event_time_zero'' = Inr (concatenate z (reference_time m))"
      "dataset_values g4 ''event_time_offset'' = Inr (concatenate off (time_of_flight m))"
      "dataset_values g4 ''event_index'' = Inr (concatenate ix ?new)"
      using z3 o3 g3(3) g4(4) by simp_all
    ultimately show ?thesis using g1(2) g2(2) g3(2) g4(2,3) Some by simp
  qed
qed

lemma merge_ev44_Inl: "merge_ev44 g m = Inl (e, g') \<Longrightarrow> e = KeyError"
  by (auto simp: merge_ev44_def Let_def split: sum.splits prod.splits option.splits
           dest: append_to_dataset_Inl)

lemma merge_ev44_fail_event_id:
  assumes z: "dataset_values g ''event_time_zero'' = Inr z"
    and o: "dataset_values g ''event_time_offset'' = Inr off"
    and i: "dataset_values g ''event_index'' = Inr ix"
    and p: "pixel_id m = Some pix"
    and e: "dataset_values g ''event_id'' = Inl err"
  shows "\<exists>g'. merge_ev44 g m = Inl (KeyError, g') \<and> items g' = items g \<and>
           dataset_values g' ''event_time_zero'' = Inr (concatenate z (reference_time m)) \<and>
           dataset_values g' ''event_time_offset'' = Inr (concatenate off (time_of_flight m)) \<and>
           dataset_values g' ''event_index''
             = Inr (concatenate ix
                    (map (\<lambda>k. k + of_nat (array_length off)) (reference_time_index m))) \<and>
           dataset_values g' ''event_id'' = Inl err"
proof -
  let ?m = "m\<lparr>pixel_id := None\<rparr>"
  from merge_ev44_ok[of g z off ix ?m] z o i obtain g3 where
    g3: "merge_ev44 g ?m = Inr g3" "items g3 = items g"
      "dataset_values g3 ''event_time_zero'' = Inr (concatenate z (reference_time m))"
      "dataset_values g3 ''event_time_offset'' = Inr (concatenate off (time_of_flight m))"
      "dataset_values g3 ''event_index''
             = Inr (concatenate ix
                    (map (\<lambda>k. k + of_nat (array_length off)) (reference_time_index m)))"
      "dataset_values g3 ''event_id'' = dataset_values g ''event_id''"
    by auto
  from g3(6) e have "append_to_dataset g3 ''event_id'' pix = Inl (KeyError, g3)"
    by (simp add: append_to_dataset_fail)
  with g3(1) p have "merge_ev44 g m = Inl (KeyError, g3)"
    by (auto simp: merge_ev44_def Let_def split: sum.splits prod.splits)
  with g3 e show ?thesis by simp
qed

text \<open>The initializer on the freshly materialized group.\<close>

lemma dataset_values_Cons:
  "dataset_values (Node d (Some (c # cs))) nm =
     (if node_name c = Some nm then get_array_values c else dataset_values (Node d (Some cs)) nm)"
  by (auto simp: dataset_values_def)

lemma dataset_values_Nil: "dataset_values (Node d (Some [])) nm = Inl KeyError"
  by (simp add: dataset_values_def)

lemma node_name_create_dataset [simp]: "node_name (create_dataset nm dt vs u) = Some nm"
  by (simp add: create_dataset_def node_name_def items_name_def)

lemma get_array_values_create_dataset [simp]:
  "get_array_values (create_dataset nm dt vs u) = Inr vs"
  by (simp add: create_dataset_def get_array_values_def)

lemma initialize_fresh:
  assumes "name d = Some nm"
  shows "\<exists>g. initialize_ev44 (Node d (Some [])) = Inr g \<and> items g = d \<and>
           dataset_values g ''event_time_zero'' = Inr (Float64 []) \<and>
           dataset_values g ''event_time_offset'' = Inr (Float64 []) \<and>
           dataset_values g ''event_index'' = Inr (Float64 []) \<and>
           dataset_values g ''event_id''
             = (if sublist ''monitor'' nm then Inl KeyError else Inr (Float64 []))"
  using assms
  by (simp add: initialize_ev44_def get_children_def dataset_values_Cons dataset_values_Nil)

lemma initialize_nameless:
  assumes "name d = None"
  shows "\<exists>g. initialize_ev44 (Node d (Some [])) = Inl (KeyError, g)"
  using assms by (simp add: initialize_ev44_def get_children_def)

section \<open>The bridge: one path, then the loop\<close>

lemma initialize_ev44_Inl: "initialize_ev44 g = Inl (e, g') \<Longrightarrow> e = KeyError"
  by (auto simp: initialize_ev44_def Let_def split: option.splits if_splits)

lemma materialize_ok:
  assumes par: "find_parent t p = Inr par" and cs: "children par = Some cs"
    and len: "length cs \<le> 1" and nm: "name (items par) = Some nm"
    and px: "pixel_id m = None \<or> \<not> sublist ''monitor'' nm"
  shows "\<exists>g. except_KeyError initialize_ev44 merge_ev44 s t m p = Inr (AList.update p g s) \<and>
           items g = items par \<and>
           dataset_values g ''event_time_zero'' = Inr (as_float64 (reference_time m)) \<and>
           dataset_values g ''event_time_offset'' = Inr (as_float64 (time_of_flight m)) \<and>
           dataset_values g ''event_index'' = Inr (as_float64 (reference_time_index m)) \<and>
           dataset_values g ''event_id''
             = (if sublist ''monitor'' nm then Inl KeyError
                else Inr (case pixel_id m of None \<Rightarrow> Float64 [] | Some pix \<Rightarrow> as_float64 pix))"
proof -
  from initialize_fresh[OF nm] obtain g0 where
    g0: "initialize_ev44 (Node (items par) (Some [])) = Inr g0" "items g0 = items par"
      "dataset_values g0 ''event_time_zero'' = Inr (Float64 [])"
      "dataset_values g0 ''event_time_offset'' = Inr (Float64 [])"
      "dataset_values g0 ''event_index'' = Inr (Float64 [])"
      "dataset_values g0 ''event_id'' = (if sublist ''monitor'' nm then Inl KeyError else Inr (Float64 []))"
    by blast
  have e: "pixel_id m \<noteq> None \<Longrightarrow> dataset_values g0 ''event_id'' = Inr (Float64 [])"
    using px g0(6) by auto
  from merge_ev44_ok[OF g0(3,4,5) e] obtain g where
    g: "merge_ev44 g0 m = Inr g" "items g = items g0"
      "dataset_values g ''event_time_zero'' = Inr (concatenate (Float64 []) (reference_time m))"
      "dataset_values g ''event_time_offset'' = Inr (concatenate (Float64 []) (time_of_flight m))"
      "dataset_values g ''event_index''
         = Inr (concatenate (Float64 [])
               (map (\<lambda>k. k + of_nat (array_length (Float64 []))) (reference_time_index m)))"
      "dataset_values g ''event_id''
         = (case pixel_id m of None \<Rightarrow> dataset_values g0 ''event_id'' | Some pix \<Rightarrow> Inr (concatenate (Float64 []) pix))"
    by blast
  have "except_KeyError initialize_ev44 merge_ev44 s t m p = Inr (AList.update p g s)"
    using par cs len g0(1) g(1) by (simp add: except_KeyError_def)
  moreover have "dataset_values g ''event_id''
             = (if sublist ''monitor'' nm then Inl KeyError
                else Inr (case pixel_id m of None \<Rightarrow> Float64 [] | Some pix \<Rightarrow> as_float64 pix))"
    using g(6) g0(6) px by (auto split: option.splits)
  ultimately show ?thesis using g(2,3,4,5) g0(2) by (intro exI[of _ g]) simp
qed

lemma materialize_monitor_pixel_id:
  assumes par: "find_parent t p = Inr par" and cs: "children par = Some cs"
    and len: "length cs \<le> 1" and nm: "name (items par) = Some nm"
    and px: "pixel_id m = Some pix" and mon: "sublist ''monitor'' nm"
  shows "\<exists>g. except_KeyError initialize_ev44 merge_ev44 s t m p
                = Inl (KeyError, AList.update p g s) \<and>
           dataset_values g ''event_time_zero'' = Inr (as_float64 (reference_time m)) \<and>
           dataset_values g ''event_time_offset'' = Inr (as_float64 (time_of_flight m)) \<and>
           dataset_values g ''event_index'' = Inr (as_float64 (reference_time_index m))"
proof -
  from initialize_fresh[OF nm] mon obtain g0 where
    g0: "initialize_ev44 (Node (items par) (Some [])) = Inr g0"
      "dataset_values g0 ''event_time_zero'' = Inr (Float64 [])"
      "dataset_values g0 ''event_time_offset'' = Inr (Float64 [])"
      "dataset_values g0 ''event_index'' = Inr (Float64 [])"
      "dataset_values g0 ''event_id'' = Inl KeyError"
    by auto
  from merge_ev44_fail_event_id[OF g0(2,3,4) px g0(5)] obtain g where
    g: "merge_ev44 g0 m = Inl (KeyError, g)"
      "dataset_values g ''event_time_zero'' = Inr (concatenate (Float64 []) (reference_time m))"
      "dataset_values g ''event_time_offset'' = Inr (concatenate (Float64 []) (time_of_flight m))"
      "dataset_values g ''event_index''
         = Inr (concatenate (Float64 [])
               (map (\<lambda>k. k + of_nat (array_length (Float64 []))) (reference_time_index m)))"
    by blast
  have "except_KeyError initialize_ev44 merge_ev44 s t m p = Inl (KeyError, AList.update p g s)"
    using par cs len g0(1) g(1) by (simp add: except_KeyError_def)
  then show ?thesis using g(2,3,4) by (intro exI[of _ g]) simp
qed

lemma except_KeyError_Inr:
  assumes "except_KeyError initialize_ev44 merge_ev44 s t m p = Inr s'"
  shows "\<exists>par cs nm. find_parent t p = Inr par \<and> children par = Some cs \<and> length cs \<le> 1 \<and>
           name (items par) = Some nm \<and> (pixel_id m = None \<or> \<not> sublist ''monitor'' nm)"
proof -
  from assms obtain par cs where par: "find_parent t p = Inr par"
    and cs: "children par = Some cs" and len: "length cs \<le> 1"
    by (auto simp: except_KeyError_def split: sum.splits option.splits if_splits)
  show ?thesis
  proof (cases "name (items par)")
    case None
    from initialize_nameless[OF None] obtain g where
      "initialize_ev44 (Node (items par) (Some [])) = Inl (KeyError, g)" by blast
    with assms par cs len show ?thesis by (simp add: except_KeyError_def)
  next
    case (Some nm)
    show ?thesis
    proof (cases "pixel_id m = None \<or> \<not> sublist ''monitor'' nm")
      case True
      with par cs len Some show ?thesis by blast
    next
      case False
      then obtain pix where "pixel_id m = Some pix" "sublist ''monitor'' nm" by auto
      from materialize_monitor_pixel_id[OF par cs len Some this, of s] assms
      show ?thesis by auto
    qed
  qed
qed

lemma find_nexus_structure_Inl: "find_nexus_structure t p = Inl e \<Longrightarrow> e = KeyError"
  by (induction t p rule: find_nexus_structure.induct) (auto split: option.splits)

lemma except_KeyError_Inl:
  assumes "except_KeyError initialize_ev44 merge_ev44 s t m p = Inl (e, s')"
  shows "(s' = s \<and> (e = KeyError \<or> e = ValueError)) \<or> (e = KeyError \<and> (\<exists>g. s' = AList.update p g s))"
  using assms
  by (auto simp: except_KeyError_def find_parent_def
           split: sum.splits option.splits if_splits prod.splits
           dest: initialize_ev44_Inl merge_ev44_Inl find_nexus_structure_Inl)

lemma merge_path_fresh:
  "map_of s p = None \<Longrightarrow> merge_path i f s t m p = except_KeyError i f s t m p"
  by (simp add: merge_path_def)

lemma merge_path_existing_ok:
  assumes g: "map_of s p = Some g"
    and z: "dataset_values g ''event_time_zero'' = Inr z"
    and o: "dataset_values g ''event_time_offset'' = Inr off"
    and i: "dataset_values g ''event_index'' = Inr ix"
    and e: "pixel_id m \<noteq> None \<Longrightarrow> dataset_values g ''event_id'' = Inr ev"
  shows "\<exists>g'. merge_path initialize_ev44 merge_ev44 s t m p = Inr (AList.update p g' s) \<and>
           items g' = items g \<and>
           dataset_values g' ''event_time_zero'' = Inr (concatenate z (reference_time m)) \<and>
           dataset_values g' ''event_time_offset'' = Inr (concatenate off (time_of_flight m)) \<and>
           dataset_values g' ''event_index''
             = Inr (concatenate ix
                    (map (\<lambda>k. k + of_nat (array_length off)) (reference_time_index m))) \<and>
           dataset_values g' ''event_id''
             = (case pixel_id m of None \<Rightarrow> dataset_values g ''event_id''
                | Some pix \<Rightarrow> Inr (concatenate ev pix))"
proof -
  from merge_ev44_ok[OF z o i e] obtain g' where
    g': "merge_ev44 g m = Inr g'" "items g' = items g"
      "dataset_values g' ''event_time_zero'' = Inr (concatenate z (reference_time m))"
      "dataset_values g' ''event_time_offset'' = Inr (concatenate off (time_of_flight m))"
      "dataset_values g' ''event_index''
             = Inr (concatenate ix
                    (map (\<lambda>k. k + of_nat (array_length off)) (reference_time_index m)))"
      "dataset_values g' ''event_id''
             = (case pixel_id m of None \<Rightarrow> dataset_values g ''event_id''
                | Some pix \<Rightarrow> Inr (concatenate ev pix))"
    by blast
  have "merge_path initialize_ev44 merge_ev44 s t m p = Inr (AList.update p g' s)"
    using g g'(1) by (simp add: merge_path_def)
  then show ?thesis using g'(2-) by (intro exI[of _ g']) simp
qed

lemma except_KeyError_other:
  "q \<noteq> p \<Longrightarrow> map_of (store_after (except_KeyError i f s t m p)) q = map_of s q"
  by (auto simp: except_KeyError_def store_after_def update_conv'
           split: sum.splits option.splits prod.splits)

lemma merge_path_other:
  assumes "q \<noteq> p"
  shows "map_of (store_after (merge_path i f s t m p)) q = map_of s q"
proof (cases "map_of s p")
  case None
  then show ?thesis using except_KeyError_other[OF assms] by (simp add: merge_path_def)
next
  case (Some g)
  show ?thesis
  proof (cases "f g m")
    case (Inr g')
    with Some assms show ?thesis by (simp add: merge_path_def store_after_def update_conv')
  next
    case (Inl eg)
    obtain e g' where eg: "eg = (e, g')" by (cases eg)
    show ?thesis
    proof (cases "e = KeyError")
      case True
      with Some Inl eg except_KeyError_other[OF assms, of i f "AList.update p g' s" t m] assms
      show ?thesis by (simp add: merge_path_def update_conv')
    next
      case False
      with Some Inl eg assms show ?thesis
        by (simp add: merge_path_def store_after_def update_conv')
    qed
  qed
qed

lemma merge_paths_other:
  "p \<notin> set ps \<Longrightarrow> map_of (store_after (merge_paths i f s t m ps)) p = map_of s p"
proof (induction ps arbitrary: s)
  case Nil
  then show ?case by (simp add: store_after_def)
next
  case (Cons q ps)
  then have qp: "p \<noteq> q" and nin: "p \<notin> set ps" by auto
  show ?case
  proof (cases "merge_path i f s t m q")
    case (Inl es)
    with merge_path_other[OF qp, of i f s t m] show ?thesis by (simp add: store_after_def)
  next
    case (Inr s1)
    with merge_path_other[OF qp, of i f s t m] Cons.IH[OF nin, of s1] show ?thesis
      by (simp add: store_after_def)
  qed
qed

lemma merge_paths_append:
  "merge_paths i f s t m (ps1 @ ps2) =
     (case merge_paths i f s t m ps1 of Inl e \<Rightarrow> Inl e | Inr s1 \<Rightarrow> merge_paths i f s1 t m ps2)"
  by (induction ps1 arbitrary: s) (auto split: sum.splits)

lemma merge_paths_at:
  assumes d: "distinct ps" and p: "p \<in> set ps" and ok: "merge_paths i f s t m ps = Inr s'"
  shows "\<exists>s1 s2. map_of s1 p = map_of s p \<and> merge_path i f s1 t m p = Inr s2 \<and>
           map_of s' p = map_of s2 p"
proof -
  from split_list[OF p] obtain ps1 ps2 where ps: "ps = ps1 @ p # ps2" by blast
  with d have n1: "p \<notin> set ps1" and n2: "p \<notin> set ps2" by auto
  from ok ps obtain s1 where s1: "merge_paths i f s t m ps1 = Inr s1"
    and r: "merge_paths i f s1 t m (p # ps2) = Inr s'"
    by (auto simp: merge_paths_append split: sum.splits)
  from r obtain s2 where s2: "merge_path i f s1 t m p = Inr s2"
    and r2: "merge_paths i f s2 t m ps2 = Inr s'"
    by (auto split: sum.splits)
  have "map_of s1 p = map_of s p"
    using merge_paths_other[OF n1, of i f s t m] s1 by (simp add: store_after_def)
  moreover have "map_of s' p = map_of s2 p"
    using merge_paths_other[OF n2, of i f s2 t m] r2 by (simp add: store_after_def)
  ultimately show ?thesis using s2 by blast
qed





lemma merge_message_unfold:
  assumes "find_ev44_matching_paths t m = ps1 @ ps2"
    and "merge_paths initialize_ev44 merge_ev44 s t m ps1 = Inr s1"
  shows "merge_message_into_data_module_store s t ''ev44'' m
           = merge_paths initialize_ev44 merge_ev44 s1 t m ps2"
  using assms
  by (simp add: merge_message_into_data_module_store_def
        merge_message_into_data_module_store_bridge_def merge_paths_append)

lemmas merge_eval =
  find_ev44_matching_paths_def config_source_def find_parent_def

lemma merge_message_at:
  assumes ok: "merge_message_into_data_module_store s t ''ev44'' m = Inr s'"
    and d: "distinct (find_ev44_matching_paths t m)"
    and p: "p \<in> set (find_ev44_matching_paths t m)"
  shows "\<exists>s1 s2. map_of s1 p = map_of s p \<and>
           merge_path initialize_ev44 merge_ev44 s1 t m p = Inr s2 \<and>
           map_of s' p = map_of s2 p"
  using merge_paths_at[OF d p, of initialize_ev44 merge_ev44 s t m s'] ok
  by (simp add: merge_message_into_data_module_store_def
        merge_message_into_data_module_store_bridge_def)

lemma fresh_step:
  assumes f: "map_of s1 p = None"
    and ok: "merge_path initialize_ev44 merge_ev44 s1 t m p = Inr s2"
  shows "\<exists>g par nm. map_of s2 p = Some g \<and> find_parent t p = Inr par \<and>
           name (items par) = Some nm \<and> (pixel_id m = None \<or> \<not> sublist ''monitor'' nm) \<and>
           dataset_values g ''event_time_zero'' = Inr (as_float64 (reference_time m)) \<and>
           dataset_values g ''event_time_offset'' = Inr (as_float64 (time_of_flight m)) \<and>
           dataset_values g ''event_index'' = Inr (as_float64 (reference_time_index m)) \<and>
           dataset_values g ''event_id''
             = (if sublist ''monitor'' nm then Inl KeyError
                else Inr (case pixel_id m of None \<Rightarrow> Float64 [] | Some pix \<Rightarrow> as_float64 pix))"
proof -
  from ok merge_path_fresh[OF f] have x: "except_KeyError initialize_ev44 merge_ev44 s1 t m p = Inr s2"
    by simp
  from except_KeyError_Inr[OF x] obtain par cs nm where
    h: "find_parent t p = Inr par" "children par = Some cs" "length cs \<le> 1"
      "name (items par) = Some nm" "pixel_id m = None \<or> \<not> sublist ''monitor'' nm"
    by blast
  from materialize_ok[OF h, of s1] x obtain g where
    g: "s2 = AList.update p g s1"
      "dataset_values g ''event_time_zero'' = Inr (as_float64 (reference_time m))"
      "dataset_values g ''event_time_offset'' = Inr (as_float64 (time_of_flight m))"
      "dataset_values g ''event_index'' = Inr (as_float64 (reference_time_index m))"
      "dataset_values g ''event_id''
             = (if sublist ''monitor'' nm then Inl KeyError
                else Inr (case pixel_id m of None \<Rightarrow> Float64 [] | Some pix \<Rightarrow> as_float64 pix))"
    by auto
  have "map_of s2 p = Some g" using g(1) by (simp add: update_conv')
  with h(1,4,5) g(2-) show ?thesis by blast
qed

lemma existing_step:
  assumes g: "map_of s1 p = Some g"
    and z: "dataset_values g ''event_time_zero'' = Inr z"
    and o: "dataset_values g ''event_time_offset'' = Inr off"
    and i: "dataset_values g ''event_index'' = Inr ix"
    and e: "pixel_id m \<noteq> None \<Longrightarrow> dataset_values g ''event_id'' = Inr ev"
    and ok: "merge_path initialize_ev44 merge_ev44 s1 t m p = Inr s2"
  shows "\<exists>g'. map_of s2 p = Some g' \<and>
           dataset_values g' ''event_time_zero'' = Inr (concatenate z (reference_time m)) \<and>
           dataset_values g' ''event_time_offset'' = Inr (concatenate off (time_of_flight m)) \<and>
           dataset_values g' ''event_index''
             = Inr (concatenate ix
                    (map (\<lambda>k. k + of_nat (array_length off)) (reference_time_index m))) \<and>
           dataset_values g' ''event_id''
             = (case pixel_id m of None \<Rightarrow> dataset_values g ''event_id''
                | Some pix \<Rightarrow> Inr (concatenate ev pix))"
proof -
  from merge_path_existing_ok[where m=m and t=t, OF g z o i e] ok obtain g' where
    g': "s2 = AList.update p g' s1"
      "dataset_values g' ''event_time_zero'' = Inr (concatenate z (reference_time m))"
      "dataset_values g' ''event_time_offset'' = Inr (concatenate off (time_of_flight m))"
      "dataset_values g' ''event_index''
             = Inr (concatenate ix
                    (map (\<lambda>k. k + of_nat (array_length off)) (reference_time_index m)))"
      "dataset_values g' ''event_id''
             = (case pixel_id m of None \<Rightarrow> dataset_values g ''event_id''
                | Some pix \<Rightarrow> Inr (concatenate ev pix))"
    by auto
  have "map_of s2 p = Some g'" using g'(1) by (simp add: update_conv')
  with g'(2-) show ?thesis by blast
qed

lemma monitor_second_step:
  assumes g: "map_of s1 p = Some g"
    and z: "dataset_values g ''event_time_zero'' = Inr z"
    and o: "dataset_values g ''event_time_offset'' = Inr off"
    and i: "dataset_values g ''event_index'' = Inr ix"
    and e: "dataset_values g ''event_id'' = Inl KeyError"
    and par: "find_parent t p = Inr par" "name (items par) = Some nm" "sublist ''monitor'' nm"
    and px: "pixel_id m = Some pix"
  shows "merge_path initialize_ev44 merge_ev44 s1 t m p \<noteq> Inr s2"
proof
  assume ok: "merge_path initialize_ev44 merge_ev44 s1 t m p = Inr s2"
  from merge_ev44_fail_event_id[OF z o i px e] obtain g' where
    "merge_ev44 g m = Inl (KeyError, g')" by blast
  with g ok have "except_KeyError initialize_ev44 merge_ev44 (AList.update p g' s1) t m p = Inr s2"
    by (simp add: merge_path_def)
  from except_KeyError_Inr[OF this] par px show False by auto
qed

section \<open>Field initializer\<close>



section \<open>Field merger\<close>

lemmas dataset_eval =
  dataset_values_def get_array_values_def create_dataset_def node_name_def items_name_def

lemma dataset_length_Inr:
  "dataset_values g nm = Inr a \<Longrightarrow> dataset_length g nm = Inr (array_length a)"
  by (simp add: dataset_length_def)

text \<open>
  C7. Merging a message without \<open>pixel_id\<close> into a group whose three mandatory
  datasets can be read returns without error and leaves what the group holds under
  \<open>event_id\<close> as it was, its length included, while the length of \<open>event_time_offset\<close>
  grows by the length of the \<open>time_of_flight\<close> of the batch and the length of
  \<open>event_index\<close> grows by the length of its \<open>reference_time_index\<close>.
\<close>

theorem merge_ev44_optional_pixel_id:
  assumes "dataset_values g ''event_time_zero'' = Inr z"
    and "dataset_values g ''event_time_offset'' = Inr off"
    and "dataset_values g ''event_index'' = Inr ix"
    and "pixel_id m = None"
  shows "\<exists>g'. merge_ev44 g m = Inr g' \<and>
           dataset_values g' ''event_id'' = dataset_values g ''event_id'' \<and>
           dataset_length g' ''event_id'' = dataset_length g ''event_id'' \<and>
           dataset_length g' ''event_time_offset''
             = Inr (array_length off + length (time_of_flight m)) \<and>
           dataset_length g' ''event_index''
             = Inr (array_length ix + length (reference_time_index m))"
proof -
  from merge_ev44_ok[of g z off ix m "Float64 []", OF assms(1,2,3)] assms(4) obtain g' where
    "merge_ev44 g m = Inr g'"
    "dataset_values g' ''event_time_offset'' = Inr (concatenate off (time_of_flight m))"
    "dataset_values g' ''event_index''
       = Inr (concatenate ix
                (map (\<lambda>k. k + of_nat (array_length off)) (reference_time_index m)))"
    "dataset_values g' ''event_id'' = dataset_values g ''event_id''"
    by auto
  then show ?thesis by (intro exI[of _ g']) (simp add: dataset_length_def)
qed

theorem merge_ev44_optional_pixel_id_witness:
  "dataset_values materialized_detector ''event_time_zero'' = Inr (Float64 [100]) \<and>
   dataset_values materialized_detector ''event_time_offset'' = Inr (Float64 [5, 6]) \<and>
   dataset_values materialized_detector ''event_index'' = Inr (Float64 [0]) \<and>
   pixel_id message_without_pixel_id = None \<and>
   (\<exists>g'. merge_ev44 materialized_detector message_without_pixel_id = Inr g' \<and>
      dataset_values g' ''event_id'' = Inr (Float64 [1, 2]) \<and>
      dataset_length g' ''event_id'' = Inr 2 \<and>
      dataset_length g' ''event_time_offset'' = Inr 5 \<and>
      dataset_length g' ''event_index'' = Inr 2)"
proof -
  have h: "dataset_values materialized_detector ''event_time_zero'' = Inr (Float64 [100])"
    "dataset_values materialized_detector ''event_time_offset'' = Inr (Float64 [5, 6])"
    "dataset_values materialized_detector ''event_index'' = Inr (Float64 [0])"
    "pixel_id message_without_pixel_id = None"
    and e: "dataset_values materialized_detector ''event_id'' = Inr (Float64 [1, 2])"
    by (simp_all add: materialized_detector_def message_without_pixel_id_def dataset_eval)
  have l: "dataset_length materialized_detector ''event_id'' = Inr 2"
    using e by (simp add: dataset_length_def)
  from merge_ev44_optional_pixel_id [OF h] h e l show ?thesis
    by (simp add: message_without_pixel_id_def eval_nat_numeral)
qed

section \<open>Messages that match no placeholder\<close>

text \<open>
  C8. If no node of the template is an ev44 placeholder whose \<open>config.source\<close> is the
  \<open>source_name\<close> of the message, \<open>merge_message_into_data_module_store\<close> returns
  without error and the store is the one it was given. The template is an argument that
  no function of the module writes to: the model never returns it.
\<close>

theorem no_match_noop:
  assumes "\<forall>(path, n) \<in> set (iter_nexus_structure t None).
             module (items n) = Some ''ev44'' \<longrightarrow> config_source n \<noteq> Some (source_name m)"
  shows "merge_message_into_data_module_store s t ''ev44'' m = Inr s"
proof -
  have "filter (\<lambda>(path, n). module (items n) = Some ''ev44'' \<and>
                  config_source n = Some (source_name m))
          (iter_nexus_structure t None) = []"
    using assms by (auto simp: filter_empty_conv)
  then have "find_ev44_matching_paths t m = []"
    by (simp add: find_ev44_matching_paths_def)
  then show ?thesis
    by (simp add: merge_message_into_data_module_store_def
          merge_message_into_data_module_store_bridge_def)
qed

theorem no_match_noop_witness:
  "find_ev44_matching_paths example_template message_unknown_source = [] \<and>
   merge_message_into_data_module_store
     [([Some ''detector_0'', None], materialized_detector)] example_template ''ev44''
     message_unknown_source
   = Inr [([Some ''detector_0'', None], materialized_detector)]"
proof -
  have h: "\<forall>(path, n) \<in> set (iter_nexus_structure example_template None).
      module (items n) = Some ''ev44'' \<longrightarrow>
      config_source n \<noteq> Some (source_name message_unknown_source)"
    by (simp add: iter_nexus_structure.simps [of "Node a b" for a b] example_defs
          config_source_def message_unknown_source_def)
  have e: "find_ev44_matching_paths example_template message_unknown_source = []"
    by (simp add: iter_nexus_structure.simps [of "Node a b" for a b] example_defs merge_eval
          message_unknown_source_def)
  from no_match_noop [OF h] e show ?thesis by simp
qed

section \<open>One placeholder in a group\<close>



section \<open>Running the examples\<close>

lemma not_monitor: "\<not> sublist ''monitor'' ''detector_0''" "\<not> sublist ''monitor'' ''detector_1''"
  by code_simp+

lemmas run_merge =
  merge_message_into_data_module_store_def merge_message_into_data_module_store_bridge_def
  merge_path_def except_KeyError_def initialize_ev44_def merge_ev44_def append_to_dataset_def
  put_child_def set_values_def get_array_values_def create_dataset_def not_monitor
  float64_of_int64_exact

lemma run_A:
  "merge_message_into_data_module_store [] example_template ''ev44'' message_bankA
     = Inr [([Some ''detector_0'', None], materialized_group ''detector_0'' [100] [5, 6] [0] [1, 2])]"
  by (simp add: iter_nexus_structure.simps [of "Node a b" for a b] example_defs merge_eval
        run_merge message_bankA_def materialized_group_def)

lemma run_B:
  "merge_message_into_data_module_store
     [([Some ''detector_0'', None], materialized_group ''detector_0'' [100] [5, 6] [0] [1, 2])]
     example_template ''ev44'' message_bankA_2
     = Inr [([Some ''detector_0'', None],
             materialized_group ''detector_0'' [100, 200] [5, 6, 7] [0, 2] [1, 2, 3])]"
  by (simp add: iter_nexus_structure.simps [of "Node a b" for a b] example_defs merge_eval
        run_merge message_bankA_2_def materialized_group_def)


lemma run_C:
  "merge_message_into_data_module_store
     [([Some ''detector_0'', None],
       materialized_group ''detector_0'' [100, 200] [5, 6, 7] [0, 2] [1, 2, 3])]
     example_template ''ev44'' message_bankA_2
     = Inr [([Some ''detector_0'', None],
             materialized_group ''detector_0'' [100, 200, 200] [5, 6, 7, 7] [0, 2, 3]
               [1, 2, 3, 3])]"
  by (simp add: iter_nexus_structure.simps [of "Node a b" for a b] example_defs merge_eval
        run_merge message_bankA_2_def materialized_group_def)

lemma example_paths:
  "find_ev44_matching_paths example_template message_bankA = [[Some ''detector_0'', None]]"
  "find_ev44_matching_paths example_template message_bankA_2 = [[Some ''detector_0'', None]]"
  by (simp_all add: iter_nexus_structure.simps [of "Node a b" for a b] example_defs merge_eval
        message_bankA_def message_bankA_2_def)

lemma materialized_group_values:
  "dataset_values (materialized_group nm z off ix ev) ''event_time_zero'' = Inr (Float64 z)"
  "dataset_values (materialized_group nm z off ix ev) ''event_time_offset'' = Inr (Float64 off)"
  "dataset_values (materialized_group nm z off ix ev) ''event_index'' = Inr (Float64 ix)"
  "dataset_values (materialized_group nm z off ix ev) ''event_id'' = Inr (Float64 ev)"
  by (simp_all add: materialized_group_def dataset_eval)

lemma duplicate_paths:
  "find_ev44_matching_paths duplicate_source_template message_bankA
     = [[Some ''detector_0'', None], [Some ''detector_1'', None]]"
  "find_ev44_matching_paths duplicate_source_template message_bankA_2
     = [[Some ''detector_0'', None], [Some ''detector_1'', None]]"
  by (simp_all add: iter_nexus_structure.simps [of "Node a b" for a b] example_defs merge_eval
        duplicate_source_template_def message_bankA_def message_bankA_2_def)

lemma run_duplicate_A:
  "merge_message_into_data_module_store [] duplicate_source_template ''ev44'' message_bankA
     = Inr [([Some ''detector_0'', None],
             materialized_group ''detector_0'' [100] [5, 6] [0] [1, 2]),
            ([Some ''detector_1'', None],
             materialized_group ''detector_1'' [100] [5, 6] [0] [1, 2])]"
  by (simp add: iter_nexus_structure.simps [of "Node a b" for a b] example_defs merge_eval
        run_merge duplicate_source_template_def message_bankA_def materialized_group_def)

lemma run_duplicate_B:
  "merge_message_into_data_module_store
     [([Some ''detector_0'', None], materialized_group ''detector_0'' [100] [5, 6] [0] [1, 2]),
      ([Some ''detector_1'', None], materialized_group ''detector_1'' [100] [5, 6] [0] [1, 2])]
     duplicate_source_template ''ev44'' message_bankA_2
     = Inr [([Some ''detector_0'', None],
             materialized_group ''detector_0'' [100, 200] [5, 6, 7] [0, 2] [1, 2, 3]),
            ([Some ''detector_1'', None],
             materialized_group ''detector_1'' [100, 200] [5, 6, 7] [0, 2] [1, 2, 3])]"
  by (simp add: iter_nexus_structure.simps [of "Node a b" for a b] example_defs merge_eval
        run_merge duplicate_source_template_def message_bankA_2_def materialized_group_def)

lemma is_monitor: "sublist ''monitor'' ''monitor_0''"
  by code_simp

lemma materialized_monitor_values:
  "dataset_values (materialized_monitor nm z off ix) ''event_time_zero'' = Inr (Float64 z)"
  "dataset_values (materialized_monitor nm z off ix) ''event_time_offset'' = Inr (Float64 off)"
  "dataset_values (materialized_monitor nm z off ix) ''event_index'' = Inr (Float64 ix)"
  "dataset_values (materialized_monitor nm z off ix) ''event_id'' = Inl KeyError"
  by (simp_all add: materialized_monitor_def dataset_eval)

lemma monitor_paths:
  "find_ev44_matching_paths example_template message_mon_1 = [[Some ''monitor_0'', None]]"
  "find_ev44_matching_paths example_template message_mon_2 = [[Some ''monitor_0'', None]]"
  by (simp_all add: iter_nexus_structure.simps [of "Node a b" for a b] example_defs merge_eval
        message_mon_1_def message_mon_2_def)

lemma run_monitor_1:
  "merge_message_into_data_module_store [] example_template ''ev44'' message_mon_1
     = Inr [([Some ''monitor_0'', None],
             materialized_monitor ''monitor_0'' [100, 101] [5, 6] [0, 1])]"
  by (simp add: monitor_paths merge_message_into_data_module_store_def
        merge_message_into_data_module_store_bridge_def)
     (simp add: example_defs merge_eval run_merge is_monitor message_mon_1_def
        materialized_monitor_def)

lemma run_monitor_2:
  "merge_message_into_data_module_store
     [([Some ''monitor_0'', None], materialized_monitor ''monitor_0'' [100, 101] [5, 6] [0, 1])]
     example_template ''ev44'' message_mon_2
     = Inl (KeyError,
            [([Some ''monitor_0'', None], materialized_monitor ''monitor_0'' [200] [7] [0])])"
  by (simp add: monitor_paths merge_message_into_data_module_store_def
        merge_message_into_data_module_store_bridge_def)
     (simp add: example_defs merge_eval run_merge is_monitor message_mon_2_def
        materialized_monitor_def)

lemma run_monitor_fresh_2:
  "merge_message_into_data_module_store [] example_template ''ev44'' message_mon_2
     = Inl (KeyError,
            [([Some ''monitor_0'', None], materialized_monitor ''monitor_0'' [200] [7] [0])])"
  by (simp add: monitor_paths merge_message_into_data_module_store_def
        merge_message_into_data_module_store_bridge_def)
     (simp add: example_defs merge_eval run_merge is_monitor message_mon_2_def
        materialized_monitor_def)


lemma same_name_paths:
  "find_ev44_matching_paths same_name_template message_bankA
     = [[Some ''detector_0'', None], [Some ''detector_0'', None]]"
  "find_ev44_matching_paths same_name_template message_bankA_2
     = [[Some ''detector_0'', None], [Some ''detector_0'', None]]"
  by (simp_all add: iter_nexus_structure.simps [of "Node a b" for a b] example_defs merge_eval
        same_name_template_def message_bankA_def message_bankA_2_def)

lemma run_same_name_A:
  "merge_message_into_data_module_store [] same_name_template ''ev44'' message_bankA
     = Inr [([Some ''detector_0'', None],
             materialized_group ''detector_0'' [100, 100] [5, 6, 5, 6] [0, 2] [1, 2, 1, 2])]"
  by (simp add: iter_nexus_structure.simps [of "Node a b" for a b] example_defs merge_eval
        run_merge same_name_template_def message_bankA_def materialized_group_def)

lemma run_same_name_B:
  "merge_message_into_data_module_store
     [([Some ''detector_0'', None],
       materialized_group ''detector_0'' [100, 100] [5, 6, 5, 6] [0, 2] [1, 2, 1, 2])]
     same_name_template ''ev44'' message_bankA_2
     = Inr [([Some ''detector_0'', None],
             materialized_group ''detector_0'' [100, 100, 200, 200] [5, 6, 5, 6, 7, 7]
               [0, 2, 4, 5] [1, 2, 1, 2, 3, 3])]"
  by (simp add: iter_nexus_structure.simps [of "Node a b" for a b] example_defs merge_eval
        run_merge same_name_template_def message_bankA_2_def materialized_group_def)

lemma crowded_first_paths:
  "find_ev44_matching_paths crowded_first_template message_bankA
     = [[Some ''detector_0'', None], [Some ''detector_1'', None]]"
  by (simp add: iter_nexus_structure.simps [of "Node a b" for a b] example_defs merge_eval
        crowded_first_template_def message_bankA_def)

lemma run_crowded_first:
  "merge_message_into_data_module_store [] crowded_first_template ''ev44'' message_bankA
     = Inl (ValueError, [])"
  by (simp add: iter_nexus_structure.simps [of "Node a b" for a b] example_defs merge_eval
        run_merge crowded_first_template_def message_bankA_def)
section \<open>Offset correctness of the event merger\<close>

text \<open>
  C1, as stated, fails: two groups of one name give their placeholders one path, the
  matcher yields that path twice, and one call appends the batch twice to the one entry.
  After batch \<open>A\<close> and batch \<open>B\<close> the entry holds \<open>[5, 6, 5, 6, 7, 7]\<close> under
  \<open>event_time_offset\<close>, where the two arrays \<open>time_of_flight\<close> together are
  \<open>[5, 6, 7]\<close>.
\<close>

theorem offset_twice_appended_counterexample:
  "find_ev44_matching_paths same_name_template message_bankA
     = [[Some ''detector_0'', None], [Some ''detector_0'', None]] \<and>
   merge_message_into_data_module_store [] same_name_template ''ev44'' message_bankA
     = Inr [([Some ''detector_0'', None],
             materialized_group ''detector_0'' [100, 100] [5, 6, 5, 6] [0, 2] [1, 2, 1, 2])] \<and>
   merge_message_into_data_module_store
     [([Some ''detector_0'', None],
       materialized_group ''detector_0'' [100, 100] [5, 6, 5, 6] [0, 2] [1, 2, 1, 2])]
     same_name_template ''ev44'' message_bankA_2
     = Inr [([Some ''detector_0'', None],
             materialized_group ''detector_0'' [100, 100, 200, 200] [5, 6, 5, 6, 7, 7]
               [0, 2, 4, 5] [1, 2, 1, 2, 3, 3])] \<and>
   dataset_values
     (materialized_group ''detector_0'' [100, 100, 200, 200] [5, 6, 5, 6, 7, 7]
        [0, 2, 4, 5] [1, 2, 1, 2, 3, 3]) ''event_time_offset''
     = Inr (Float64 [5, 6, 5, 6, 7, 7]) \<and>
   as_float64 (time_of_flight message_bankA @ time_of_flight message_bankA_2)
     = Float64 [5, 6, 7] \<and>
   Float64 [5, 6, 5, 6, 7, 7] \<noteq> Float64 [5, 6, 7]"
proof -
  have "as_float64 (time_of_flight message_bankA @ time_of_flight message_bankA_2)
          = Float64 [5, 6, 7]"
    by (simp add: message_bankA_def message_bankA_2_def as_float64_def float64_of_int64_exact
          del: as_float64_fold)
  with same_name_paths(1) run_same_name_A run_same_name_B materialized_group_values(2)
  show ?thesis by simp
qed

text \<open>
  C1, amended. Let \<open>p\<close> be a path that matches both batches, let the matched paths of
  each batch be pairwise different, and let both calls of
  \<open>merge_message_into_data_module_store\<close> return without error. The arrays hold
  float64 numbers, and the offset is added in 64-bit integers. If \<open>p\<close> had no entry
  before batch \<open>A\<close>, then after batch \<open>B\<close> the group at \<open>p\<close> holds, converted to
  float64, \<open>A.time_of_flight @ B.time_of_flight\<close> under \<open>event_time_offset\<close>, and
  \<open>A.reference_time_index\<close> followed by \<open>B.reference_time_index\<close> with the length of
  \<open>A.time_of_flight\<close> added to each entry under \<open>event_index\<close>; these are the integers
  themselves as long as their magnitudes are below \<open>2 ^ 53\<close>. In general, for a group
  already at \<open>p\<close> whose datasets can be read, the entries a batch appends to
  \<open>event_index\<close> are its \<open>reference_time_index\<close> plus the length that
  \<open>event_time_offset\<close> had before the merge of that batch.
\<close>

theorem offset_correctness:
  assumes pa: "p \<in> set (find_ev44_matching_paths t A)" "distinct (find_ev44_matching_paths t A)"
    and pb: "p \<in> set (find_ev44_matching_paths t B)" "distinct (find_ev44_matching_paths t B)"
    and a: "merge_message_into_data_module_store s0 t ''ev44'' A = Inr s1"
    and b: "merge_message_into_data_module_store s1 t ''ev44'' B = Inr s2"
  shows "(map_of s0 p = None \<longrightarrow>
           (\<exists>g. map_of s2 p = Some g \<and>
              dataset_values g ''event_time_offset''
                = Inr (as_float64 (time_of_flight A @ time_of_flight B)) \<and>
              dataset_values g ''event_index''
                = Inr (as_float64 (reference_time_index A @
                         map (\<lambda>k. k + of_nat (length (time_of_flight A)))
                           (reference_time_index B))) \<and>
              (list_all (\<lambda>w. \<bar>sint w\<bar> < 2 ^ 53) (time_of_flight A @ time_of_flight B) \<longrightarrow>
               dataset_values g ''event_time_offset''
                 = Inr (Float64 (map (\<lambda>w. real_of_int (sint w))
                                   (time_of_flight A @ time_of_flight B)))) \<and>
              (list_all (\<lambda>k. \<bar>sint k\<bar> < 2 ^ 53) (reference_time_index A) \<and>
               list_all (\<lambda>k. \<bar>sint k + int (length (time_of_flight A))\<bar> < 2 ^ 53)
                 (reference_time_index B) \<longrightarrow>
               dataset_values g ''event_index''
                 = Inr (Float64
                          (map (\<lambda>k. real_of_int (sint k)) (reference_time_index A) @
                           map (\<lambda>k. real_of_int (sint k + int (length (time_of_flight A))))
                             (reference_time_index B)))))) \<and>
         (\<forall>g0 z off ix ev.
            map_of s0 p = Some g0 \<and>
            dataset_values g0 ''event_time_zero'' = Inr z \<and>
            dataset_values g0 ''event_time_offset'' = Inr off \<and>
            dataset_values g0 ''event_index'' = Inr ix \<and>
            (pixel_id A \<noteq> None \<longrightarrow> dataset_values g0 ''event_id'' = Inr ev) \<longrightarrow>
            (\<exists>g1. map_of s1 p = Some g1 \<and>
               dataset_values g1 ''event_time_offset'' = Inr (concatenate off (time_of_flight A)) \<and>
               dataset_values g1 ''event_index''
                 = Inr (concatenate ix
                          (map (\<lambda>k. k + of_nat (array_length off)) (reference_time_index A)))))"
proof (intro conjI impI allI)
  assume f: "map_of s0 p = None"
  from merge_message_at[OF a pa(2,1)] f obtain sa sa' where
    sa: "map_of sa p = None" "merge_path initialize_ev44 merge_ev44 sa t A p = Inr sa'"
      "map_of s1 p = map_of sa' p"
    by auto
  from fresh_step[OF sa(1,2)] sa(3) obtain g1 par nm where
    g1: "map_of s1 p = Some g1" "find_parent t p = Inr par" "name (items par) = Some nm"
      "dataset_values g1 ''event_time_zero'' = Inr (as_float64 (reference_time A))"
      "dataset_values g1 ''event_time_offset'' = Inr (as_float64 (time_of_flight A))"
      "dataset_values g1 ''event_index'' = Inr (as_float64 (reference_time_index A))"
      "dataset_values g1 ''event_id''
         = (if sublist ''monitor'' nm then Inl KeyError
            else Inr (case pixel_id A of None \<Rightarrow> Float64 [] | Some pix \<Rightarrow> as_float64 pix))"
    by auto
  from merge_message_at[OF b pb(2,1)] g1(1) obtain sb sb' where
    sb: "map_of sb p = Some g1" "merge_path initialize_ev44 merge_ev44 sb t B p = Inr sb'"
      "map_of s2 p = map_of sb' p"
    by auto
  have e: "pixel_id B \<noteq> None \<Longrightarrow>
      dataset_values g1 ''event_id''
        = Inr (case pixel_id A of None \<Rightarrow> Float64 [] | Some pix \<Rightarrow> as_float64 pix)"
  proof -
    assume "pixel_id B \<noteq> None"
    then obtain pix where px: "pixel_id B = Some pix" by auto
    have "\<not> sublist ''monitor'' nm"
    proof
      assume mon: "sublist ''monitor'' nm"
      with g1(7) have "dataset_values g1 ''event_id'' = Inl KeyError" by simp
      from monitor_second_step[OF sb(1) g1(4,5,6) this g1(2,3) mon px, of sb'] sb(2)
      show False by simp
    qed
    with g1(7) show ?thesis by simp
  qed
  from existing_step[OF sb(1) g1(4,5,6) e sb(2)] sb(3) obtain g where
    g: "map_of s2 p = Some g"
      "dataset_values g ''event_time_offset''
         = Inr (as_float64 (time_of_flight A @ time_of_flight B))"
      "dataset_values g ''event_index''
         = Inr (as_float64 (reference_time_index A @
                  map (\<lambda>k. k + of_nat (length (time_of_flight A))) (reference_time_index B)))"
    by auto
  have x: "dataset_values g ''event_time_offset''
             = Inr (Float64 (map (\<lambda>w. real_of_int (sint w))
                               (time_of_flight A @ time_of_flight B)))"
    if "list_all (\<lambda>w. \<bar>sint w\<bar> < 2 ^ 53) (time_of_flight A @ time_of_flight B)"
    using g(2) as_float64_exact[OF that] by simp
  have y: "dataset_values g ''event_index''
             = Inr (Float64
                      (map (\<lambda>k. real_of_int (sint k)) (reference_time_index A) @
                       map (\<lambda>k. real_of_int (sint k + int (length (time_of_flight A))))
                         (reference_time_index B)))"
    if "list_all (\<lambda>k. \<bar>sint k\<bar> < 2 ^ 53) (reference_time_index A) \<and>
        list_all (\<lambda>k. \<bar>sint k + int (length (time_of_flight A))\<bar> < 2 ^ 53)
          (reference_time_index B)"
    using g(3) as_float64_shifted_exact[of "reference_time_index A"
        "length (time_of_flight A)" "reference_time_index B"] that
    by simp
  from g x y
  show "\<exists>g. map_of s2 p = Some g \<and>
              dataset_values g ''event_time_offset''
                = Inr (as_float64 (time_of_flight A @ time_of_flight B)) \<and>
              dataset_values g ''event_index''
                = Inr (as_float64 (reference_time_index A @
                         map (\<lambda>k. k + of_nat (length (time_of_flight A)))
                           (reference_time_index B))) \<and>
              (list_all (\<lambda>w. \<bar>sint w\<bar> < 2 ^ 53) (time_of_flight A @ time_of_flight B) \<longrightarrow>
               dataset_values g ''event_time_offset''
                 = Inr (Float64 (map (\<lambda>w. real_of_int (sint w))
                                   (time_of_flight A @ time_of_flight B)))) \<and>
              (list_all (\<lambda>k. \<bar>sint k\<bar> < 2 ^ 53) (reference_time_index A) \<and>
               list_all (\<lambda>k. \<bar>sint k + int (length (time_of_flight A))\<bar> < 2 ^ 53)
                 (reference_time_index B) \<longrightarrow>
               dataset_values g ''event_index''
                 = Inr (Float64
                          (map (\<lambda>k. real_of_int (sint k)) (reference_time_index A) @
                           map (\<lambda>k. real_of_int (sint k + int (length (time_of_flight A))))
                             (reference_time_index B))))"
    by blast
next
  fix g0 z off ix ev
  assume h: "map_of s0 p = Some g0 \<and>
            dataset_values g0 ''event_time_zero'' = Inr z \<and>
            dataset_values g0 ''event_time_offset'' = Inr off \<and>
            dataset_values g0 ''event_index'' = Inr ix \<and>
            (pixel_id A \<noteq> None \<longrightarrow> dataset_values g0 ''event_id'' = Inr ev)"
  from merge_message_at[OF a pa(2,1)] h obtain sa sa' where
    sa: "map_of sa p = Some g0" "merge_path initialize_ev44 merge_ev44 sa t A p = Inr sa'"
      "map_of s1 p = map_of sa' p"
    by auto
  from h have e: "pixel_id A \<noteq> None \<Longrightarrow> dataset_values g0 ''event_id'' = Inr ev" by simp
  from existing_step[OF sa(1) _ _ _ e sa(2), of z off ix] h sa(3)
  show "\<exists>g1. map_of s1 p = Some g1 \<and>
               dataset_values g1 ''event_time_offset'' = Inr (concatenate off (time_of_flight A)) \<and>
               dataset_values g1 ''event_index''
                 = Inr (concatenate ix
                          (map (\<lambda>k. k + of_nat (array_length off)) (reference_time_index A)))"
    by auto
qed

theorem offset_correctness_witness:
  "merge_message_into_data_module_store [] example_template ''ev44'' message_bankA
     = Inr [([Some ''detector_0'', None],
             materialized_group ''detector_0'' [100] [5, 6] [0] [1, 2])] \<and>
   merge_message_into_data_module_store
     [([Some ''detector_0'', None], materialized_group ''detector_0'' [100] [5, 6] [0] [1, 2])]
     example_template ''ev44'' message_bankA_2
     = Inr [([Some ''detector_0'', None],
             materialized_group ''detector_0'' [100, 200] [5, 6, 7] [0, 2] [1, 2, 3])] \<and>
   (\<exists>g. map_of [([Some ''detector_0'', None],
                  materialized_group ''detector_0'' [100, 200] [5, 6, 7] [0, 2] [1, 2, 3])]
           [Some ''detector_0'', None] = Some g \<and>
        dataset_values g ''event_time_offset'' = Inr (Float64 [5, 6, 7]) \<and>
        dataset_values g ''event_index'' = Inr (Float64 [0, 2]))"
proof -
  let ?p = "[Some ''detector_0'', None]"
  let ?g2 = "materialized_group ''detector_0'' [100, 200] [5, 6, 7] [0, 2] [1, 2, 3]"
  let ?g1 = "materialized_group ''detector_0'' [100] [5, 6] [0] [1, 2]"
  have pa: "?p \<in> set (find_ev44_matching_paths example_template message_bankA)"
    "distinct (find_ev44_matching_paths example_template message_bankA)"
    and pb: "?p \<in> set (find_ev44_matching_paths example_template message_bankA_2)"
    "distinct (find_ev44_matching_paths example_template message_bankA_2)"
    by (simp_all add: example_paths)
  have f: "map_of ([] :: NexusGroupDictStore) ?p = None" by simp
  have h: "map_of [(?p, ?g1)] ?p = Some ?g1 \<and>
           dataset_values ?g1 ''event_time_zero'' = Inr (Float64 [100]) \<and>
           dataset_values ?g1 ''event_time_offset'' = Inr (Float64 [5, 6]) \<and>
           dataset_values ?g1 ''event_index'' = Inr (Float64 [0]) \<and>
           (pixel_id message_bankA_2 \<noteq> None \<longrightarrow>
              dataset_values ?g1 ''event_id'' = Inr (Float64 [1, 2]))"
    by (simp add: materialized_group_values)
  have b1: "list_all (\<lambda>w. \<bar>sint w\<bar> < 2 ^ 53)
              (time_of_flight message_bankA @ time_of_flight message_bankA_2)"
    and b2: "list_all (\<lambda>k. \<bar>sint k\<bar> < 2 ^ 53) (reference_time_index message_bankA) \<and>
             list_all (\<lambda>k. \<bar>sint k + int (length (time_of_flight message_bankA))\<bar> < 2 ^ 53)
               (reference_time_index message_bankA_2)"
    by (simp_all add: message_bankA_def message_bankA_2_def)
  from offset_correctness [OF pa pb run_A run_B, THEN conjunct1, rule_format, OF f]
  obtain g where g: "map_of [(?p, ?g2)] ?p = Some g"
    "list_all (\<lambda>w. \<bar>sint w\<bar> < 2 ^ 53)
       (time_of_flight message_bankA @ time_of_flight message_bankA_2) \<longrightarrow>
     dataset_values g ''event_time_offset''
       = Inr (Float64 (map (\<lambda>w. real_of_int (sint w))
                         (time_of_flight message_bankA @ time_of_flight message_bankA_2)))"
    "list_all (\<lambda>k. \<bar>sint k\<bar> < 2 ^ 53) (reference_time_index message_bankA) \<and>
     list_all (\<lambda>k. \<bar>sint k + int (length (time_of_flight message_bankA))\<bar> < 2 ^ 53)
       (reference_time_index message_bankA_2) \<longrightarrow>
     dataset_values g ''event_index''
       = Inr (Float64
                (map (\<lambda>k. real_of_int (sint k)) (reference_time_index message_bankA) @
                 map (\<lambda>k. real_of_int (sint k + int (length (time_of_flight message_bankA))))
                   (reference_time_index message_bankA_2)))"
    by blast
  from g(2) b1 g(3) b2
  have v: "dataset_values g ''event_time_offset'' = Inr (Float64 [5, 6, 7])"
    "dataset_values g ''event_index'' = Inr (Float64 [0, 2])"
    by (simp_all add: message_bankA_def message_bankA_2_def)
  from offset_correctness [OF pb pb run_B run_C, THEN conjunct2, rule_format, OF h]
  have c: "\<exists>g. map_of [(?p, ?g2)] ?p = Some g \<and>
        dataset_values g ''event_time_offset'' = Inr (Float64 [5, 6, 7]) \<and>
        dataset_values g ''event_index'' = Inr (Float64 [0, 2])"
    by (simp add: message_bankA_2_def float64_of_int64_exact)
  from g(1) v c run_A run_B show ?thesis by simp
qed

section \<open>Several placeholders of one source\<close>

text \<open>
  C5, as stated, fails: the loop over the matched paths stops at the first error. In the
  template below two placeholders have the source of the message; the group of the
  first one has a second child, so its turn raises ValueError, and the path of the
  second placeholder is skipped: it has no entry after the call.
\<close>

theorem later_path_skipped_counterexample:
  "find_ev44_matching_paths crowded_first_template message_bankA
     = [[Some ''detector_0'', None], [Some ''detector_1'', None]] \<and>
   merge_message_into_data_module_store [] crowded_first_template ''ev44'' message_bankA
     = Inl (ValueError, []) \<and>
   map_of (store_after
             (merge_message_into_data_module_store [] crowded_first_template ''ev44''
                message_bankA))
     [Some ''detector_1'', None] = None"
  by (simp add: crowded_first_paths run_crowded_first store_after_def)

text \<open>
  C5, amended. When a call of \<open>merge_message_into_data_module_store\<close> returns without
  error and the matched paths are pairwise different, every matched path \<open>p\<close> has an
  entry afterwards and received the arrays of the message, as float64 numbers where the
  array they are appended to holds float64 numbers: a path without entry before the call
  holds exactly the arrays of the message converted to float64, and a group already at
  \<open>p\<close> whose datasets can be read holds its former arrays with those of the message
  appended (\<open>reference_time_index\<close> shifted by the former length of
  \<open>event_time_offset\<close>, the sum being taken in 64-bit integers). The same holds for any
  other matched path, so the appended data are the same.
\<close>

theorem duplicate_placeholders:
  assumes ok: "merge_message_into_data_module_store s t ''ev44'' m = Inr s'"
    and d: "distinct (find_ev44_matching_paths t m)"
    and p: "p \<in> set (find_ev44_matching_paths t m)"
  shows "(map_of s p = None \<longrightarrow>
           (\<exists>g. map_of s' p = Some g \<and>
              dataset_values g ''event_time_zero'' = Inr (as_float64 (reference_time m)) \<and>
              dataset_values g ''event_time_offset'' = Inr (as_float64 (time_of_flight m)) \<and>
              dataset_values g ''event_index'' = Inr (as_float64 (reference_time_index m)) \<and>
              (\<forall>pix. pixel_id m = Some pix \<longrightarrow>
                 dataset_values g ''event_id'' = Inr (as_float64 pix)))) \<and>
         (\<forall>g0 z off ix ev.
            map_of s p = Some g0 \<and>
            dataset_values g0 ''event_time_zero'' = Inr z \<and>
            dataset_values g0 ''event_time_offset'' = Inr off \<and>
            dataset_values g0 ''event_index'' = Inr ix \<and>
            (pixel_id m \<noteq> None \<longrightarrow> dataset_values g0 ''event_id'' = Inr ev) \<longrightarrow>
            (\<exists>g. map_of s' p = Some g \<and>
               dataset_values g ''event_time_zero'' = Inr (concatenate z (reference_time m)) \<and>
               dataset_values g ''event_time_offset''
                 = Inr (concatenate off (time_of_flight m)) \<and>
               dataset_values g ''event_index''
                 = Inr (concatenate ix
                          (map (\<lambda>k. k + of_nat (array_length off)) (reference_time_index m))) \<and>
               (\<forall>pix. pixel_id m = Some pix \<longrightarrow>
                  dataset_values g ''event_id'' = Inr (concatenate ev pix))))"
proof (intro conjI impI allI)
  assume f: "map_of s p = None"
  from merge_message_at[OF ok d p] f obtain sa sa' where
    sa: "map_of sa p = None" "merge_path initialize_ev44 merge_ev44 sa t m p = Inr sa'"
      "map_of s' p = map_of sa' p"
    by auto
  from fresh_step[OF sa(1,2)] sa(3)
  show "\<exists>g. map_of s' p = Some g \<and>
              dataset_values g ''event_time_zero'' = Inr (as_float64 (reference_time m)) \<and>
              dataset_values g ''event_time_offset'' = Inr (as_float64 (time_of_flight m)) \<and>
              dataset_values g ''event_index'' = Inr (as_float64 (reference_time_index m)) \<and>
              (\<forall>pix. pixel_id m = Some pix \<longrightarrow>
                 dataset_values g ''event_id'' = Inr (as_float64 pix))"
    by auto
next
  fix g0 z off ix ev
  assume h: "map_of s p = Some g0 \<and>
            dataset_values g0 ''event_time_zero'' = Inr z \<and>
            dataset_values g0 ''event_time_offset'' = Inr off \<and>
            dataset_values g0 ''event_index'' = Inr ix \<and>
            (pixel_id m \<noteq> None \<longrightarrow> dataset_values g0 ''event_id'' = Inr ev)"
  from merge_message_at[OF ok d p] h obtain sa sa' where
    sa: "map_of sa p = Some g0" "merge_path initialize_ev44 merge_ev44 sa t m p = Inr sa'"
      "map_of s' p = map_of sa' p"
    by auto
  from h have e: "pixel_id m \<noteq> None \<Longrightarrow> dataset_values g0 ''event_id'' = Inr ev" by simp
  from existing_step[OF sa(1) _ _ _ e sa(2), of z off ix] h sa(3)
  show "\<exists>g. map_of s' p = Some g \<and>
               dataset_values g ''event_time_zero'' = Inr (concatenate z (reference_time m)) \<and>
               dataset_values g ''event_time_offset''
                 = Inr (concatenate off (time_of_flight m)) \<and>
               dataset_values g ''event_index''
                 = Inr (concatenate ix
                          (map (\<lambda>k. k + of_nat (array_length off)) (reference_time_index m))) \<and>
               (\<forall>pix. pixel_id m = Some pix \<longrightarrow>
                  dataset_values g ''event_id'' = Inr (concatenate ev pix))"
    by auto
qed

theorem duplicate_placeholders_witness:
  "find_ev44_matching_paths duplicate_source_template message_bankA
     = [[Some ''detector_0'', None], [Some ''detector_1'', None]] \<and>
   (\<exists>g0 g1.
      map_of (store_after (merge_message_into_data_module_store [] duplicate_source_template
                ''ev44'' message_bankA)) [Some ''detector_0'', None] = Some g0 \<and>
      map_of (store_after (merge_message_into_data_module_store [] duplicate_source_template
                ''ev44'' message_bankA)) [Some ''detector_1'', None] = Some g1 \<and>
      dataset_values g0 ''event_time_zero'' = Inr (Float64 [100]) \<and>
      dataset_values g1 ''event_time_zero'' = Inr (Float64 [100]) \<and>
      dataset_values g0 ''event_time_offset'' = Inr (Float64 [5, 6]) \<and>
      dataset_values g1 ''event_time_offset'' = Inr (Float64 [5, 6]) \<and>
      dataset_values g0 ''event_index'' = Inr (Float64 [0]) \<and>
      dataset_values g1 ''event_index'' = Inr (Float64 [0]) \<and>
      dataset_values g0 ''event_id'' = Inr (Float64 [1, 2]) \<and>
      dataset_values g1 ''event_id'' = Inr (Float64 [1, 2])) \<and>
   (\<exists>g. map_of [([Some ''detector_0'', None],
                  materialized_group ''detector_0'' [100, 200] [5, 6, 7] [0, 2] [1, 2, 3]),
                 ([Some ''detector_1'', None],
                  materialized_group ''detector_1'' [100, 200] [5, 6, 7] [0, 2] [1, 2, 3])]
           [Some ''detector_1'', None] = Some g \<and>
        dataset_values g ''event_time_zero'' = Inr (Float64 [100, 200]) \<and>
        dataset_values g ''event_time_offset'' = Inr (Float64 [5, 6, 7]) \<and>
        dataset_values g ''event_index'' = Inr (Float64 [0, 2]) \<and>
        dataset_values g ''event_id'' = Inr (Float64 [1, 2, 3]))"
proof -
  let ?p0 = "[Some ''detector_0'', None]" and ?p1 = "[Some ''detector_1'', None]"
  let ?g1 = "materialized_group ''detector_1'' [100] [5, 6] [0] [1, 2]"
  let ?s1 = "[(?p0, materialized_group ''detector_0'' [100] [5, 6] [0] [1, 2]), (?p1, ?g1)]"
  have d: "distinct (find_ev44_matching_paths duplicate_source_template message_bankA)"
    "distinct (find_ev44_matching_paths duplicate_source_template message_bankA_2)"
    and p0: "?p0 \<in> set (find_ev44_matching_paths duplicate_source_template message_bankA)"
    and p1: "?p1 \<in> set (find_ev44_matching_paths duplicate_source_template message_bankA)"
      "?p1 \<in> set (find_ev44_matching_paths duplicate_source_template message_bankA_2)"
    by (simp_all add: duplicate_paths)
  have f: "map_of ([] :: NexusGroupDictStore) ?p0 = None"
    "map_of ([] :: NexusGroupDictStore) ?p1 = None" by simp_all
  have h: "map_of ?s1 ?p1 = Some ?g1 \<and>
           dataset_values ?g1 ''event_time_zero'' = Inr (Float64 [100]) \<and>
           dataset_values ?g1 ''event_time_offset'' = Inr (Float64 [5, 6]) \<and>
           dataset_values ?g1 ''event_index'' = Inr (Float64 [0]) \<and>
           (pixel_id message_bankA_2 \<noteq> None \<longrightarrow>
              dataset_values ?g1 ''event_id'' = Inr (Float64 [1, 2]))"
    by (simp add: materialized_group_values)
  have r: "store_after (merge_message_into_data_module_store [] duplicate_source_template
                ''ev44'' message_bankA) = ?s1"
    by (simp add: run_duplicate_A store_after_def)
  have a0: "\<exists>g. map_of ?s1 ?p0 = Some g \<and>
      dataset_values g ''event_time_zero'' = Inr (Float64 [100]) \<and>
      dataset_values g ''event_time_offset'' = Inr (Float64 [5, 6]) \<and>
      dataset_values g ''event_index'' = Inr (Float64 [0]) \<and>
      dataset_values g ''event_id'' = Inr (Float64 [1, 2])"
    using duplicate_placeholders [OF run_duplicate_A d(1) p0, THEN conjunct1, rule_format, OF f(1)]
    by (simp add: message_bankA_def as_float64_def float64_of_int64_exact del: as_float64_fold)
  have a1: "\<exists>g. map_of ?s1 ?p1 = Some g \<and>
      dataset_values g ''event_time_zero'' = Inr (Float64 [100]) \<and>
      dataset_values g ''event_time_offset'' = Inr (Float64 [5, 6]) \<and>
      dataset_values g ''event_index'' = Inr (Float64 [0]) \<and>
      dataset_values g ''event_id'' = Inr (Float64 [1, 2])"
    using duplicate_placeholders [OF run_duplicate_A d(1) p1(1), THEN conjunct1, rule_format,
        OF f(2)]
    by (simp add: message_bankA_def as_float64_def float64_of_int64_exact del: as_float64_fold)
  have a2: "\<exists>g. map_of [(?p0, materialized_group ''detector_0'' [100, 200] [5, 6, 7] [0, 2] [1, 2, 3]),
                 (?p1, materialized_group ''detector_1'' [100, 200] [5, 6, 7] [0, 2] [1, 2, 3])]
           ?p1 = Some g \<and>
        dataset_values g ''event_time_zero'' = Inr (Float64 [100, 200]) \<and>
        dataset_values g ''event_time_offset'' = Inr (Float64 [5, 6, 7]) \<and>
        dataset_values g ''event_index'' = Inr (Float64 [0, 2]) \<and>
        dataset_values g ''event_id'' = Inr (Float64 [1, 2, 3])"
    using duplicate_placeholders [OF run_duplicate_B d(2) p1(2), THEN conjunct2, rule_format, OF h]
    by (simp add: message_bankA_2_def float64_of_int64_exact)
  from a0 a1 a2 duplicate_paths(1) show ?thesis unfolding r by simp
qed

section \<open>Growth of the store\<close>

text \<open>
  C2. The claim is that an entry of the store only grows. The \<^verbatim>\<open>try\<close> block of
  \<^verbatim>\<open>_merge_message_into_data_module_store\<close> holds the call of \<^verbatim>\<open>merge_func\<close>, so a
  KeyError raised inside \<^verbatim>\<open>_merge_ev44\<close> is taken for a missing entry: the entry is
  replaced by a freshly initialized group. A monitor group has no \<open>event_id\<close> dataset,
  and \<^verbatim>\<open>_merge_ev44\<close> looks it up whenever the message carries \<open>pixel_id\<close>. Below, the
  first message puts two pulses into the monitor entry; the second message, with
  \<open>pixel_id\<close>, raises KeyError and leaves an entry that holds the second message only.
\<close>

theorem monitor_entry_reset:
  "merge_message_into_data_module_store [] example_template ''ev44'' message_mon_1
     = Inr [([Some ''monitor_0'', None],
             materialized_monitor ''monitor_0'' [100, 101] [5, 6] [0, 1])] \<and>
   merge_message_into_data_module_store
     [([Some ''monitor_0'', None], materialized_monitor ''monitor_0'' [100, 101] [5, 6] [0, 1])]
     example_template ''ev44'' message_mon_2
     = Inl (KeyError,
            [([Some ''monitor_0'', None], materialized_monitor ''monitor_0'' [200] [7] [0])]) \<and>
   dataset_values (materialized_monitor ''monitor_0'' [100, 101] [5, 6] [0, 1])
     ''event_time_zero'' = Inr (Float64 [100, 101]) \<and>
   dataset_values (materialized_monitor ''monitor_0'' [200] [7] [0])
     ''event_time_zero'' = Inr (Float64 [200])"
  by (simp add: run_monitor_1 run_monitor_2 materialized_monitor_values)

section \<open>Errors and the store\<close>

text \<open>
  C3, as stated, fails: nothing in the module undoes a write. A message with
  \<open>pixel_id\<close> for a monitor path without entry raises KeyError, and the store then has
  an entry for the path, with the three arrays of the message appended.
\<close>

theorem merge_not_atomic_counterexample:
  "raised (merge_message_into_data_module_store [] example_template ''ev44'' message_mon_2)
     = Some KeyError \<and>
   map_of (store_after
             (merge_message_into_data_module_store [] example_template ''ev44'' message_mon_2))
     [Some ''monitor_0'', None]
     = Some (materialized_monitor ''monitor_0'' [200] [7] [0]) \<and>
   map_of (store_after
             (merge_message_into_data_module_store [] example_template ''ev44'' message_mon_2))
     [Some ''monitor_0'', None]
     \<noteq> map_of ([] :: NexusGroupDictStore) [Some ''monitor_0'', None] \<and>
   dataset_values (materialized_monitor ''monitor_0'' [200] [7] [0]) ''event_time_offset''
     = Inr (Float64 [7])"
  by (simp add: run_monitor_fresh_2 raised_def store_after_def materialized_monitor_values)

text \<open>
  C3, amended. Let \<open>p\<close> be a matched path without entry when its turn comes, and let
  its turn raise the error \<open>e\<close>. Then the call raises \<open>e\<close>, and the entries of all
  other paths are as they were before the turn. If \<open>e\<close> is the ValueError of the
  placeholder check, the store is as it was before the turn: no entry for \<open>p\<close> is
  inserted and nothing is appended.
\<close>

theorem merge_error_store:
  assumes paths: "find_ev44_matching_paths t m = ps1 @ p # ps2"
    and before: "merge_paths initialize_ev44 merge_ev44 s t m ps1 = Inr s1"
    and fresh: "map_of s1 p = None"
    and err: "merge_path initialize_ev44 merge_ev44 s1 t m p = Inl (e, s')"
  shows "merge_message_into_data_module_store s t ''ev44'' m = Inl (e, s') \<and>
         (e = ValueError \<longrightarrow> s' = s1) \<and>
         (\<forall>q. q \<noteq> p \<longrightarrow> map_of s' q = map_of s1 q)"
proof -
  have "merge_message_into_data_module_store s t ''ev44'' m = Inl (e, s')"
    using merge_message_unfold[OF paths before] err by simp
  moreover from err merge_path_fresh[OF fresh]
  have x: "except_KeyError initialize_ev44 merge_ev44 s1 t m p = Inl (e, s')" by simp
  from except_KeyError_Inl[OF x] have "e = ValueError \<longrightarrow> s' = s1" by auto
  moreover have "map_of s' q = map_of s1 q" if "q \<noteq> p" for q
    using except_KeyError_other[OF that, of initialize_ev44 merge_ev44 s1 t m] x
    by (simp add: store_after_def)
  ultimately show ?thesis by blast
qed

theorem merge_error_store_witness:
  "find_ev44_matching_paths two_placeholder_template message_bankA
     = [] @ [Some ''detector_0'', None] # [] \<and>
   merge_message_into_data_module_store [] two_placeholder_template ''ev44'' message_bankA
     = Inl (ValueError, []) \<and>
   find_ev44_matching_paths example_template message_mon_2
     = [] @ [Some ''monitor_0'', None] # [] \<and>
   merge_message_into_data_module_store [] example_template ''ev44'' message_mon_2
     = Inl (KeyError,
            [([Some ''monitor_0'', None], materialized_monitor ''monitor_0'' [200] [7] [0])]) \<and>
   map_of [([Some ''monitor_0'', None], materialized_monitor ''monitor_0'' [200] [7] [0])]
     [Some ''monitor_0'', None] \<noteq> None"
proof -
  let ?p = "[Some ''detector_0'', None]" and ?q = "[Some ''monitor_0'', None]"
  let ?s' = "[(?q, materialized_monitor ''monitor_0'' [200] [7] [0])]"
  have b: "merge_paths initialize_ev44 merge_ev44 [] t m [] = Inr []" for t m by simp
  have f: "map_of ([] :: NexusGroupDictStore) ?p = None"
    "map_of ([] :: NexusGroupDictStore) ?q = None" by simp_all
  have p2: "find_ev44_matching_paths two_placeholder_template message_bankA = [] @ ?p # []"
    by (simp add: iter_nexus_structure.simps [of "Node a b" for a b] example_defs merge_eval
          two_placeholder_template_def message_bankA_def)
  have e2: "merge_path initialize_ev44 merge_ev44 [] two_placeholder_template message_bankA ?p
              = Inl (ValueError, [])"
    by (simp add: example_defs merge_eval run_merge two_placeholder_template_def)
  have p1: "find_ev44_matching_paths example_template message_mon_2 = [] @ ?q # []"
    by (simp add: monitor_paths)
  have e1: "merge_path initialize_ev44 merge_ev44 [] example_template message_mon_2 ?q
              = Inl (KeyError, ?s')"
    by (simp add: example_defs merge_eval run_merge is_monitor message_mon_2_def
          materialized_monitor_def)
  have n: "?s' \<noteq> []" by simp
  from merge_error_store [OF p2 b f(1) e2] merge_error_store [OF p1 b f(2) e1] p2 p1 n
  show ?thesis by simp
qed

section \<open>Tree combiner\<close>

lemma combine_empty: "combine_data_module_store_and_structure [] t a = Inr (t, a)"
  by (cases t) simp

lemma strip_head_single:
  "strip_head h [(b # q, g)] = Inr (if h = b then [(q, g)] else [])"
  by (simp add: strip_head_def)

lemma combine_children_single:
  assumes IH: "\<And>t a. \<exists>r a'. combine_data_module_store_and_structure [(q, g)] t a = Inr (r, a')
                        \<and> a \<le> a'"
  shows "\<exists>cs' a'. combine_children [(b # q, g)] cs a = Inr (cs', a') \<and> a \<le> a' \<and>
           length cs' = length cs \<and>
           (\<forall>j < length cs.
              (obj_name (cs ! j) \<noteq> b \<longrightarrow> cs' ! j = cs ! j) \<and>
              (obj_name (cs ! j) = b \<longrightarrow>
                 (\<exists>aj aj'. a \<le> aj \<and> aj' \<le> a' \<and>
                    combine_data_module_store_and_structure [(q, g)] (cs ! j) aj
                      = Inr (cs' ! j, aj'))))"
proof (induction cs arbitrary: a)
  case Nil
  then show ?case by simp
next
  case (Cons child rest)
  obtain c' a1 where c': "combine_data_module_store_and_structure
        (if obj_name child = b then [(q, g)] else []) child a = Inr (c', a1)" "a \<le> a1"
    "obj_name child \<noteq> b \<Longrightarrow> c' = child"
    using IH[of child a] by (cases "obj_name child = b") (auto simp: combine_empty)
  from Cons.IH[of a1] obtain cs' a2 where
    r: "combine_children [(b # q, g)] rest a1 = Inr (cs', a2)" "a1 \<le> a2"
      "length cs' = length rest"
      "\<And>j. j < length rest \<Longrightarrow>
         (obj_name (rest ! j) \<noteq> b \<longrightarrow> cs' ! j = rest ! j) \<and>
         (obj_name (rest ! j) = b \<longrightarrow>
            (\<exists>aj aj'. a1 \<le> aj \<and> aj' \<le> a2 \<and>
               combine_data_module_store_and_structure [(q, g)] (rest ! j) aj
                 = Inr (cs' ! j, aj')))"
    by blast
  have run: "combine_children [(b # q, g)] (child # rest) a = Inr (c' # cs', a2)"
    using c'(1) r(1) by (simp add: strip_head_single)
  have each: "(obj_name ((child # rest) ! j) \<noteq> b \<longrightarrow> (c' # cs') ! j = (child # rest) ! j) \<and>
         (obj_name ((child # rest) ! j) = b \<longrightarrow>
            (\<exists>aj aj'. a \<le> aj \<and> aj' \<le> a2 \<and>
               combine_data_module_store_and_structure [(q, g)] ((child # rest) ! j) aj
                 = Inr ((c' # cs') ! j, aj')))"
    if "j < length (child # rest)" for j
  proof (cases j)
    case 0
    show ?thesis
    proof (cases "obj_name child = b")
      case True
      with c'(1) c'(2) r(2) 0 show ?thesis by auto
    next
      case False
      with c'(3) 0 show ?thesis by simp
    qed
  next
    case (Suc k)
    with that have "k < length rest" by simp
    from r(4)[OF this] have
      n: "obj_name (rest ! k) \<noteq> b \<longrightarrow> cs' ! k = rest ! k"
      and y: "obj_name (rest ! k) = b \<longrightarrow>
            (\<exists>aj aj'. a1 \<le> aj \<and> aj' \<le> a2 \<and>
               combine_data_module_store_and_structure [(q, g)] (rest ! k) aj
                 = Inr (cs' ! k, aj'))"
      by blast+
    have "\<exists>aj aj'. a \<le> aj \<and> aj' \<le> a2 \<and>
               combine_data_module_store_and_structure [(q, g)] (rest ! k) aj
                 = Inr (cs' ! k, aj')" if "obj_name (rest ! k) = b"
    proof -
      from y that obtain aj aj' where "a1 \<le> aj" "aj' \<le> a2"
        "combine_data_module_store_and_structure [(q, g)] (rest ! k) aj = Inr (cs' ! k, aj')"
        by blast
      with c'(2) show ?thesis by (intro exI[of _ aj] exI[of _ aj']) simp
    qed
    with n Suc show ?thesis by simp
  qed
  show ?case using run c'(2) r(2,3) each by (intro exI[of _ "c' # cs'"] exI[of _ a2]) simp
qed


lemma subtree_names_Nil:
  "subtree_at t js = Some x \<Longrightarrow> names_along t js = [] \<Longrightarrow> js = []"
  by (cases js) (auto split: option.splits if_splits)

lemma combine_single:
  assumes "p \<noteq> []" "last p = None"
  shows "\<exists>r a'. combine_data_module_store_and_structure [(p, g)] t a = Inr (r, a') \<and> a \<le> a' \<and>
     (\<forall>js x. subtree_at t js = Some x \<longrightarrow>
        (leaves_branch (names_along t js) p \<longrightarrow> subtree_at r js = Some x) \<and>
        (strict_prefix (names_along t js) (butlast p) \<longrightarrow>
           (\<exists>y. subtree_at r js = Some y \<and> a \<le> ident y \<and> ident y < a' \<and>
                oitems y = oitems x)) \<and>
        (names_along t js = butlast p \<longrightarrow> subtree_at r js = Some g))"
  using assms
proof (induction p arbitrary: t a)
  case Nil
  then show ?case by simp
next
  case (Cons b p1)
  obtain i d ch where t: "t = Obj i d ch" by (cases t)
  show ?case
  proof (cases p1)
    case Nil
    with Cons.prems have b: "b = None" by simp
    have "combine_data_module_store_and_structure [(b # p1, g)] t a = Inr (g, a)"
      using Nil b t by simp
    moreover have "leaves_branch q (b # p1) = False" for q using Nil by simp
    moreover have "subtree_at g js = Some g"
      if "subtree_at t js = Some x" "names_along t js = []" for js x
      using subtree_names_Nil[OF that] by simp
    ultimately show ?thesis using Nil by (intro exI[of _ g] exI[of _ a]) auto
  next
    case (Cons c p')
    with Cons.prems have p1: "p1 \<noteq> []" "last p1 = None" by auto
    note IH = Cons.IH[OF p1]
    have nokey: "map_of [(b # p1, g)] [None] = None" using Cons by simp
    have bl: "butlast (b # p1) = b # butlast p1" using Cons by simp
    show ?thesis
    proof (cases ch)
      case None
      have run: "combine_data_module_store_and_structure [(b # p1, g)] t a
                   = Inr (Obj a d None, Suc a)"
        using t None nokey by simp
      have props: "(leaves_branch (names_along t js) (b # p1) \<longrightarrow>
           subtree_at (Obj a d None) js = Some x) \<and>
        (strict_prefix (names_along t js) (butlast (b # p1)) \<longrightarrow>
           (\<exists>y. subtree_at (Obj a d None) js = Some y \<and> a \<le> ident y \<and> ident y < Suc a \<and>
                oitems y = oitems x)) \<and>
        (names_along t js = butlast (b # p1) \<longrightarrow> subtree_at (Obj a d None) js = Some g)"
        if x: "subtree_at t js = Some x" for js x
      proof -
        from x t None have "js = []" by (cases js) auto
        with x t bl show ?thesis by auto
      qed
      show ?thesis
        using run props by (intro exI[of _ "Obj a d None"] exI[of _ "Suc a"]) simp
    next
      case (Some cs)
      have ih0: "\<exists>r a'. combine_data_module_store_and_structure [(p1, g)] t a = Inr (r, a')
                   \<and> a \<le> a'" for t a
        using IH[of t a] by blast
      from combine_children_single[of p1 g b cs "Suc a", OF ih0] obtain cs' a' where
        k: "combine_children [(b # p1, g)] cs (Suc a) = Inr (cs', a')" "Suc a \<le> a'"
          "length cs' = length cs"
          "\<And>j. j < length cs \<Longrightarrow> obj_name (cs ! j) \<noteq> b \<Longrightarrow> cs' ! j = cs ! j"
          "\<And>j. j < length cs \<Longrightarrow> obj_name (cs ! j) = b \<Longrightarrow>
             \<exists>aj aj'. Suc a \<le> aj \<and> aj' \<le> a' \<and>
               combine_data_module_store_and_structure [(p1, g)] (cs ! j) aj
                 = Inr (cs' ! j, aj')"
        by blast
      let ?r = "Obj a d (Some cs')"
      have run: "combine_data_module_store_and_structure [(b # p1, g)] t a = Inr (?r, a')"
        using t Some nokey k(1) by simp
      have props: "(leaves_branch (names_along t js) (b # p1) \<longrightarrow> subtree_at ?r js = Some x) \<and>
        (strict_prefix (names_along t js) (butlast (b # p1)) \<longrightarrow>
           (\<exists>y. subtree_at ?r js = Some y \<and> a \<le> ident y \<and> ident y < a' \<and>
                oitems y = oitems x)) \<and>
        (names_along t js = butlast (b # p1) \<longrightarrow> subtree_at ?r js = Some g)"
        if x: "subtree_at t js = Some x" for js x
      proof (cases js)
        case Nil
        with x have "x = t" by simp
        with Nil t k(2) bl show ?thesis by (auto simp: Cons)
      next
        case (Cons j js')
        with x t Some have j: "j < length cs" and x': "subtree_at (cs ! j) js' = Some x"
          by (auto split: if_splits)
        have nm: "names_along t js = obj_name (cs ! j) # names_along (cs ! j) js'"
          using Cons t Some j by simp
        have sr: "subtree_at ?r js = subtree_at (cs' ! j) js'"
          using Cons j k(3) by simp
        show ?thesis
        proof (cases "obj_name (cs ! j) = b")
          case False
          with k(4)[OF j] have "cs' ! j = cs ! j" by simp
          with sr x' nm False bl show ?thesis by (auto simp: \<open>p1 = c # p'\<close>)
        next
          case True
          from k(5)[OF j True] obtain aj aj' where
            aj: "Suc a \<le> aj" "aj' \<le> a'"
              "combine_data_module_store_and_structure [(p1, g)] (cs ! j) aj
                 = Inr (cs' ! j, aj')"
            by blast
          from IH[of "cs ! j" aj] aj(3) have
            ih: "\<forall>js x. subtree_at (cs ! j) js = Some x \<longrightarrow>
              (leaves_branch (names_along (cs ! j) js) p1 \<longrightarrow> subtree_at (cs' ! j) js = Some x) \<and>
              (strict_prefix (names_along (cs ! j) js) (butlast p1) \<longrightarrow>
                 (\<exists>y. subtree_at (cs' ! j) js = Some y \<and> aj \<le> ident y \<and> ident y < aj' \<and>
                      oitems y = oitems x)) \<and>
              (names_along (cs ! j) js = butlast p1 \<longrightarrow> subtree_at (cs' ! j) js = Some g)"
            by auto
          from ih x' have
            a1: "leaves_branch (names_along (cs ! j) js') p1 \<longrightarrow> subtree_at (cs' ! j) js' = Some x"
            and a2: "strict_prefix (names_along (cs ! j) js') (butlast p1) \<longrightarrow>
                 (\<exists>y. subtree_at (cs' ! j) js' = Some y \<and> aj \<le> ident y \<and> ident y < aj' \<and>
                      oitems y = oitems x)"
            and a3: "names_along (cs ! j) js' = butlast p1 \<longrightarrow> subtree_at (cs' ! j) js' = Some g"
            by blast+
          have b2: "\<exists>y. subtree_at (cs' ! j) js' = Some y \<and> a \<le> ident y \<and> ident y < a' \<and>
                      oitems y = oitems x"
            if "strict_prefix (names_along (cs ! j) js') (butlast p1)"
          proof -
            from a2 that obtain y where "subtree_at (cs' ! j) js' = Some y" "aj \<le> ident y"
              "ident y < aj'" "oitems y = oitems x" by blast
            with aj(1,2) show ?thesis by (intro exI[of _ y]) simp
          qed
          show ?thesis
            using a1 b2 a3 sr nm True bl by (auto simp: \<open>p1 = c # p'\<close>)
        qed
      qed
      show ?thesis
        using run k(2) props by (intro exI[of _ ?r] exI[of _ a']) simp
    qed
  qed
qed

text \<open>\<open>leaves_branch q p\<close> says that \<open>q\<close> and \<open>p\<close> agree up to some position above the
  last component of \<open>p\<close> and differ there.\<close>

lemma leaves_branch_iff:
  "leaves_branch q p \<longleftrightarrow>
     (\<exists>k. Suc k < length p \<and> k < length q \<and> take k q = take k p \<and> q ! k \<noteq> p ! k)"
proof (induction q p rule: leaves_branch.induct)
  case (1 n q b c p)
  have "(\<exists>k. Suc k < length (b # c # p) \<and> k < length (n # q) \<and>
            take k (n # q) = take k (b # c # p) \<and> (n # q) ! k \<noteq> (b # c # p) ! k)
        \<longleftrightarrow> n \<noteq> b \<or>
            (\<exists>k. Suc k < length (c # p) \<and> k < length q \<and> take k q = take k (c # p) \<and>
                 q ! k \<noteq> (c # p) ! k)"
    (is "?L \<longleftrightarrow> ?R")
  proof
    assume ?L
    then obtain k where k: "Suc k < length (b # c # p)" "k < length (n # q)"
      "take k (n # q) = take k (b # c # p)" "(n # q) ! k \<noteq> (b # c # p) ! k" by blast
    show ?R
    proof (cases k)
      case 0
      with k show ?thesis by simp
    next
      case (Suc k')
      with k show ?thesis by (intro disjI2 exI[of _ k']) simp
    qed
  next
    assume ?R
    then show ?L
    proof
      assume "n \<noteq> b"
      then show ?L by (intro exI[of _ 0]) simp
    next
      assume "\<exists>k. Suc k < length (c # p) \<and> k < length q \<and> take k q = take k (c # p) \<and>
                 q ! k \<noteq> (c # p) ! k"
      then obtain k where "Suc k < length (c # p)" "k < length q" "take k q = take k (c # p)"
        "q ! k \<noteq> (c # p) ! k" by blast
      moreover have "n = b \<or> n \<noteq> b" by simp
      ultimately show ?L
      proof (cases "n = b")
        case True
        with \<open>Suc k < length (c # p)\<close> \<open>k < length q\<close> \<open>take k q = take k (c # p)\<close>
          \<open>q ! k \<noteq> (c # p) ! k\<close>
        show ?thesis by (intro exI[of _ "Suc k"]) simp
      next
        case False
        then show ?thesis by (intro exI[of _ 0]) simp
      qed
    qed
  qed
  with 1 show ?case by simp
qed simp_all

lemmas obj_defs = example_obj_template_def example_overlay_def obj_group_def
  obj_placeholder_def obj_name_def items_name_def

text \<open>
  C9. With an empty store the function returns the template, the same object, and
  builds nothing. With a single entry \<open>g\<close> at the path \<open>p\<close> of an anonymous placeholder
  (\<open>p\<close> is not empty and ends in \<open>None\<close>), and all identities of the template below the
  next free address, the function returns a tree \<open>r\<close> in which
  \<^item> every subtree of the template that leaves the path to \<open>p\<close> above the parent group
    of \<open>p\<close> is, at the same position of \<open>r\<close>, the same object;
  \<^item> every dictionary on the path above the parent group of \<open>p\<close> is built anew: it has an
    identity that no dictionary of the template has, and the items of the template
    dictionary;
  \<^item> at the position of the parent group of \<open>p\<close> the result holds the stored group \<open>g\<close>.
\<close>

theorem combine_sharing:
  "combine_data_module_store_and_structure [] t a = Inr (t, a) \<and>
   (p \<noteq> [] \<and> last p = None \<and> (\<forall>i \<in> set (idents t). i < a) \<longrightarrow>
      (\<exists>r a'. combine_data_module_store_and_structure [(p, g)] t a = Inr (r, a') \<and>
         (\<forall>js x. subtree_at t js = Some x \<longrightarrow>
            (leaves_branch (names_along t js) p \<longrightarrow> subtree_at r js = Some x) \<and>
            (strict_prefix (names_along t js) (butlast p) \<longrightarrow>
               (\<exists>y. subtree_at r js = Some y \<and> a \<le> ident y \<and> ident y < a' \<and>
                    ident y \<notin> set (idents t) \<and> oitems y = oitems x)) \<and>
            (names_along t js = butlast p \<longrightarrow> subtree_at r js = Some g))))"
proof (intro conjI impI)
  show "combine_data_module_store_and_structure [] t a = Inr (t, a)" by (rule combine_empty)
next
  assume h: "p \<noteq> [] \<and> last p = None \<and> (\<forall>i \<in> set (idents t). i < a)"
  then have p: "p \<noteq> []" "last p = None" and f: "\<And>i. i \<in> set (idents t) \<Longrightarrow> i < a"
    by auto
  from combine_single[OF p, of g t a] obtain r a' where
    r: "combine_data_module_store_and_structure [(p, g)] t a = Inr (r, a')"
    and s: "\<And>js x. subtree_at t js = Some x \<Longrightarrow>
        (leaves_branch (names_along t js) p \<longrightarrow> subtree_at r js = Some x) \<and>
        (strict_prefix (names_along t js) (butlast p) \<longrightarrow>
           (\<exists>y. subtree_at r js = Some y \<and> a \<le> ident y \<and> ident y < a' \<and>
                oitems y = oitems x)) \<and>
        (names_along t js = butlast p \<longrightarrow> subtree_at r js = Some g)"
    by blast
  have "(leaves_branch (names_along t js) p \<longrightarrow> subtree_at r js = Some x) \<and>
        (strict_prefix (names_along t js) (butlast p) \<longrightarrow>
           (\<exists>y. subtree_at r js = Some y \<and> a \<le> ident y \<and> ident y < a' \<and>
                ident y \<notin> set (idents t) \<and> oitems y = oitems x)) \<and>
        (names_along t js = butlast p \<longrightarrow> subtree_at r js = Some g)"
    if x: "subtree_at t js = Some x" for js x
  proof -
    have "\<exists>y. subtree_at r js = Some y \<and> a \<le> ident y \<and> ident y < a' \<and>
                ident y \<notin> set (idents t) \<and> oitems y = oitems x"
      if "strict_prefix (names_along t js) (butlast p)"
    proof -
      from s[OF x] that obtain y where y: "subtree_at r js = Some y" "a \<le> ident y"
        "ident y < a'" "oitems y = oitems x" by blast
      from f[of "ident y"] y(2) have "ident y \<notin> set (idents t)" by auto
      with y show ?thesis by blast
    qed
    with s[OF x] show ?thesis by blast
  qed
  with r show "\<exists>r a'. combine_data_module_store_and_structure [(p, g)] t a = Inr (r, a') \<and>
         (\<forall>js x. subtree_at t js = Some x \<longrightarrow>
            (leaves_branch (names_along t js) p \<longrightarrow> subtree_at r js = Some x) \<and>
            (strict_prefix (names_along t js) (butlast p) \<longrightarrow>
               (\<exists>y. subtree_at r js = Some y \<and> a \<le> ident y \<and> ident y < a' \<and>
                    ident y \<notin> set (idents t) \<and> oitems y = oitems x)) \<and>
            (names_along t js = butlast p \<longrightarrow> subtree_at r js = Some g))"
    by blast
qed

theorem combine_sharing_witness:
  "combine_data_module_store_and_structure [] example_obj_template 20
     = Inr (example_obj_template, 20) \<and>
   (\<exists>r a'. combine_data_module_store_and_structure
              [([Some ''detector_0'', None], example_overlay)] example_obj_template 20
              = Inr (r, a') \<and>
      subtree_at r [1] = Some (obj_group 3 ''monitor_0'' [obj_placeholder 4 ''mon'']) \<and>
      subtree_at r [1, 0] = Some (obj_placeholder 4 ''mon'') \<and>
      (\<exists>y. subtree_at r [] = Some y \<and> ident y \<notin> set (idents example_obj_template) \<and>
           oitems y = oitems example_obj_template) \<and>
      subtree_at r [0] = Some example_overlay)"
proof -
  let ?p = "[Some ''detector_0'', None]"
  have h: "?p \<noteq> [] \<and> last ?p = None \<and> (\<forall>i \<in> set (idents example_obj_template). i < 20)"
    by (simp add: obj_defs)
  from combine_sharing [of example_obj_template 20 ?p example_overlay] h obtain r a' where
    r: "combine_data_module_store_and_structure [(?p, example_overlay)] example_obj_template 20
          = Inr (r, a')"
    and s: "\<And>js x. subtree_at example_obj_template js = Some x \<Longrightarrow>
        (leaves_branch (names_along example_obj_template js) ?p \<longrightarrow> subtree_at r js = Some x) \<and>
        (strict_prefix (names_along example_obj_template js) (butlast ?p) \<longrightarrow>
           (\<exists>y. subtree_at r js = Some y \<and> 20 \<le> ident y \<and> ident y < a' \<and>
                ident y \<notin> set (idents example_obj_template) \<and> oitems y = oitems x)) \<and>
        (names_along example_obj_template js = butlast ?p \<longrightarrow>
           subtree_at r js = Some example_overlay)"
    by blast
  have x1: "subtree_at example_obj_template [1]
              = Some (obj_group 3 ''monitor_0'' [obj_placeholder 4 ''mon''])"
    and x10: "subtree_at example_obj_template [1, 0] = Some (obj_placeholder 4 ''mon'')"
    and x0: "subtree_at example_obj_template [0]
              = Some (obj_group 1 ''detector_0'' [obj_placeholder 2 ''bankA''])"
    and xr: "subtree_at example_obj_template [] = Some example_obj_template"
    by (simp_all add: example_obj_template_def obj_group_def)
  have n1: "leaves_branch (names_along example_obj_template [1]) ?p"
    and n10: "leaves_branch (names_along example_obj_template [1, 0]) ?p"
    and n0: "names_along example_obj_template [0] = butlast ?p"
    and nr: "strict_prefix (names_along example_obj_template []) (butlast ?p)"
    by (simp_all add: obj_defs)
  from s[OF x1] s[OF x10] s[OF x0] s[OF xr] n1 n10 n0 nr r
    combine_sharing [of example_obj_template 20 ?p example_overlay]
  show ?thesis by auto
qed

end
